theory Spec2Isabelle
  imports Main "HOL-Library.Sublist" "HOL-Library.AList"
begin

section \<open>JavaScript strings and arrays\<close>

text \<open>
  A JavaScript string is modelled as a \<open>string\<close>, one \<open>char\<close> per unit of the string.
  The operations below only compare units for equality, so nothing depends on the width
  of a unit. The single non-ASCII literal of the source (the text of the missing-data
  error) is written as its UTF-8 bytes.
\<close>

definition endsWith :: "string \<Rightarrow> string \<Rightarrow> bool" where
  \<comment> \<open>\<open>String.prototype.endsWith\<close>: the last \<open>length t\<close> units of \<open>s\<close> are \<open>t\<close>.\<close>
  "endsWith s t = (length t \<le> length s \<and> drop (length s - length t) s = t)"

definition js_slice :: "'a list \<Rightarrow> int \<Rightarrow> int \<Rightarrow> 'a list" where
  \<comment> \<open>\<open>slice(start, end)\<close> of strings and arrays: a negative index counts from the end,
      and both indices are clamped to the range \<open>0 .. length\<close>.\<close>
  "js_slice s start fin =
     (let len = int (length s);
          from = (if start < 0 then max (len + start) 0 else min start len);
          to = (if fin < 0 then max (len + fin) 0 else min fin len)
      in take (nat (max (to - from) 0)) (drop (nat from) s))"

definition js_includes :: "'a list \<Rightarrow> 'a \<Rightarrow> bool" where
  \<comment> \<open>\<open>Array.prototype.includes\<close> on an array of strings.\<close>
  "js_includes xs x = (x \<in> set xs)"

fun join :: "string \<Rightarrow> string list \<Rightarrow> string" where
  \<comment> \<open>\<open>Array.prototype.join\<close>.\<close>
  "join sep [] = []"
| "join sep [x] = x"
| "join sep (x # y # ys) = x @ sep @ join sep (y # ys)"

fun split_on :: "char \<Rightarrow> string \<Rightarrow> string list" where
  \<comment> \<open>\<open>String.prototype.split\<close> with a separator of one unit.\<close>
  "split_on c [] = [[]]"
| "split_on c (x # xs) =
     (if x = c then [] # split_on c xs
      else (case split_on c xs of [] \<Rightarrow> [[x]] | w # ws \<Rightarrow> (x # w) # ws))"

fun expand_repl :: "string \<Rightarrow> string \<Rightarrow> string \<Rightarrow> string \<Rightarrow> string" where
  \<comment> \<open>The replacement text of \<open>String.prototype.replace\<close> for a pattern without capture
      groups: \<open>$$\<close> is a dollar sign, \<open>$&\<close> the matched text, \<open>$`\<close> the part of the subject
      before the match, \<open>$'\<close> the part after it; any other unit stands for itself.\<close>
  "expand_repl m pre post [] = []"
| "expand_repl m pre post [c] = [c]"
| "expand_repl m pre post (c # d # r) =
     (if c = CHR ''$'' then
        (if d = CHR ''$'' then CHR ''$'' # expand_repl m pre post r
         else if d = CHR ''&'' then m @ expand_repl m pre post r
         else if d = CHR 0x60 then pre @ expand_repl m pre post r
         else if d = CHR 0x27 then post @ expand_repl m pre post r
         else c # expand_repl m pre post (d # r))
      else c # expand_repl m pre post (d # r))"

fun replace_from :: "char \<Rightarrow> string \<Rightarrow> string \<Rightarrow> string \<Rightarrow> string \<Rightarrow> string" where
  \<comment> \<open>\<open>subject.replace(/pattern/g, repl)\<close> for a literal pattern \<open>p # ps\<close>: the matches are
      found from left to right without overlap; \<open>pre\<close> is the part of the subject already
      passed.\<close>
  "replace_from p ps repl pre [] = []"
| "replace_from p ps repl pre (c # cs) =
     (if prefix (p # ps) (c # cs)
      then expand_repl (p # ps) pre (drop (length ps) cs) repl
           @ replace_from p ps repl (pre @ p # ps) (drop (length ps) cs)
      else c # replace_from p ps repl (pre @ [c]) cs)"

definition replace_lang :: "string \<Rightarrow> string \<Rightarrow> string" where
  \<comment> \<open>\<open>s.replace(/{lang}/g, repl)\<close>\<close>
  "replace_lang repl s = replace_from CHR ''{'' ''lang}'' repl [] s"

definition replace_file :: "string \<Rightarrow> string \<Rightarrow> string" where
  \<comment> \<open>\<open>s.replace(/{file}/g, repl)\<close>\<close>
  "replace_file repl s = replace_from CHR ''{'' ''file}'' repl [] s"

fun subst_from :: "char \<Rightarrow> string \<Rightarrow> string \<Rightarrow> string \<Rightarrow> string" where
  \<comment> \<open>The specification's substitution: every occurrence of the placeholder \<open>p # ps\<close> is
      replaced by the text \<open>txt\<close> itself.\<close>
  "subst_from p ps txt [] = []"
| "subst_from p ps txt (c # cs) =
     (if prefix (p # ps) (c # cs) then txt @ subst_from p ps txt (drop (length ps) cs)
      else c # subst_from p ps txt cs)"

definition spec_url :: "string \<Rightarrow> string \<Rightarrow> string" where
  \<comment> \<open>The URL as the specification describes it: \<open>{lang}\<close> replaced by the code, then
      \<open>{file}\<close> replaced by the asset's file name.\<close>
  "spec_url template lang =
     subst_from CHR ''{'' ''file}'' (lang @ ''.traineddata.gz'')
       (subst_from CHR ''{'' ''lang}'' lang template)"

section \<open>Paths\<close>

fun norm_step :: "bool \<Rightarrow> string list \<Rightarrow> string \<Rightarrow> string list" where
  \<comment> \<open>One segment of Node's \<open>normalizeString\<close>: empty segments and \<open>.\<close> are dropped, \<open>..\<close>
      removes the segment before it; above the top it is kept only for a relative path.\<close>
  "norm_step allowAbove acc seg =
     (if seg = [] \<or> seg = ''.'' then acc
      else if seg = ''..'' then
        (if acc \<noteq> [] \<and> last acc \<noteq> ''..'' then butlast acc
         else if allowAbove then acc @ [''..''] else acc)
      else acc @ [seg])"

definition norm_segs :: "bool \<Rightarrow> string \<Rightarrow> string list" where
  "norm_segs allowAbove p = foldl (norm_step allowAbove) [] (split_on CHR ''/'' p)"

definition normalizeString :: "string \<Rightarrow> bool \<Rightarrow> string" where
  "normalizeString p allowAbove = join ''/'' (norm_segs allowAbove p)"

fun resolve_loop :: "string list \<Rightarrow> string \<times> bool \<Rightarrow> string \<times> bool" where
  \<comment> \<open>The loop of \<open>path.resolve\<close>: the arguments are taken from the last to the first, then
      the working directory, until the path built so far is absolute.\<close>
  "resolve_loop [] (rp, ab) = (rp, ab)"
| "resolve_loop (p # ps) (rp, ab) =
     (if ab then (rp, ab)
      else (case p of
              [] \<Rightarrow> resolve_loop ps (rp, ab)
            | c # _ \<Rightarrow> resolve_loop ps (p @ ''/'' @ rp, c = CHR ''/'')))"

definition path_resolve :: "string \<Rightarrow> string list \<Rightarrow> string" where
  \<comment> \<open>\<open>path.resolve(...args)\<close> of \<open>node:path\<close> on POSIX, with the working directory \<open>cwd\<close>.\<close>
  "path_resolve cwd args =
     (case resolve_loop (rev args @ [cwd]) ([], False) of
        (rp, ab) \<Rightarrow>
          (let n = normalizeString rp (\<not> ab)
           in if ab then CHR ''/'' # n else if n \<noteq> [] then n else ''.''))"

section \<open>The file system, the HTTP client and the recognition engine\<close>

datatype error = FsError string | HttpError string | SessionError string

datatype node = Dir | File string

type_synonym fsys = "(string list \<times> node) list"

datatype fsop = OpMkdir "string list" | OpReaddir "string list" | OpOpen "string list"

record response =
  body :: string
  stream_error :: "error option"

record env =
  cwd_dirs :: "string list"
  baseDir :: string
  http_get :: "string \<Rightarrow> nat \<Rightarrow> error + response"
  io_fault :: "fsop \<Rightarrow> error option"

text \<open>
  The file system is a list of entries, each an absolute path (its segments) with a
  directory or a file and its content; the top directory always exists. A directory lists
  its entries in the order of the store; the order of the names that \<open>fs.readdir\<close> returns
  belongs to the platform, and no statement below depends on it. Besides the failures that
  follow from the
  entries (a file where a directory is needed, a missing parent), the environment may make
  any operation fail (\<open>io_fault\<close>: permissions, a device error). \<open>http_get\<close> is the
  injected HTTP client: a request fails, or yields a response whose body is what the
  stream delivers before it ends or breaks (\<open>stream_error\<close>).
\<close>

definition process_cwd :: "env \<Rightarrow> string" where
  \<comment> \<open>\<open>process.cwd()\<close> is an absolute path.\<close>
  "process_cwd env = CHR ''/'' # join ''/'' (cwd_dirs env)"

definition fs_path :: "string \<Rightarrow> string list" where
  \<comment> \<open>The entry an absolute path string denotes.\<close>
  "fs_path p = norm_segs False p"

definition fs_lookup :: "fsys \<Rightarrow> string list \<Rightarrow> node option" where
  "fs_lookup fs p = (if p = [] then Some Dir else map_of fs p)"

fun mkdir_from :: "fsys \<Rightarrow> string list \<Rightarrow> string list \<Rightarrow> error + fsys" where
  "mkdir_from fs pre [] = Inr fs"
| "mkdir_from fs pre (s # ss) =
     (case fs_lookup fs (pre @ [s]) of
        Some (File _) \<Rightarrow> Inl (FsError (if ss = [] then ''EEXIST'' else ''ENOTDIR''))
      | Some Dir \<Rightarrow> mkdir_from fs (pre @ [s]) ss
      | None \<Rightarrow> mkdir_from (fs @ [(pre @ [s], Dir)]) (pre @ [s]) ss)"

definition fs_mkdir :: "env \<Rightarrow> fsys \<Rightarrow> string \<Rightarrow> error + fsys" where
  \<comment> \<open>\<open>fs.mkdir(p, { recursive: true })\<close>\<close>
  "fs_mkdir env fs p =
     (case io_fault env (OpMkdir (fs_path p)) of
        Some e \<Rightarrow> Inl e
      | None \<Rightarrow> mkdir_from fs [] (fs_path p))"

definition children :: "fsys \<Rightarrow> string list \<Rightarrow> string list" where
  "children fs d = map last (filter (\<lambda>q. q \<noteq> [] \<and> butlast q = d) (map fst fs))"

definition fs_readdir :: "env \<Rightarrow> fsys \<Rightarrow> string \<Rightarrow> error + string list" where
  \<comment> \<open>\<open>fs.readdir(p)\<close>\<close>
  "fs_readdir env fs p =
     (case io_fault env (OpReaddir (fs_path p)) of
        Some e \<Rightarrow> Inl e
      | None \<Rightarrow>
          (case fs_lookup fs (fs_path p) of
             None \<Rightarrow> Inl (FsError ''ENOENT'')
           | Some (File _) \<Rightarrow> Inl (FsError ''ENOTDIR'')
           | Some Dir \<Rightarrow> Inr (children fs (fs_path p))))"

definition pipeTo_file :: "env \<Rightarrow> fsys \<Rightarrow> response \<Rightarrow> string \<Rightarrow> (error + unit) \<times> fsys" where
  \<comment> \<open>\<open>resp.pipeTo(Stream.Writable.toWeb(fsSync.createWriteStream(p)))\<close>: the file is
      opened for writing (created, or emptied when it exists) and receives what the stream
      delivers; a stream that breaks leaves a file whose content is what had arrived
      (how much that is belongs to the platform: the statements below use the content
      only after a stream that ended).\<close>
  "pipeTo_file env fs resp p =
     (let q = fs_path p in
      case io_fault env (OpOpen q) of
        Some e \<Rightarrow> (Inl e, fs)
      | None \<Rightarrow>
          if q = [] \<or> fs_lookup fs q = Some Dir then (Inl (FsError ''EISDIR''), fs)
          else (case fs_lookup fs (butlast q) of
                  None \<Rightarrow> (Inl (FsError ''ENOENT''), fs)
                | Some (File _) \<Rightarrow> (Inl (FsError ''ENOTDIR''), fs)
                | Some Dir \<Rightarrow>
                    (case stream_error resp of
                       Some e \<Rightarrow> (Inl e, AList.update q (File (body resp)) fs)
                     | None \<Rightarrow> (Inr (), AList.update q (File (body resp)) fs))))"

datatype jsval = JStr string | JNum int | JBool bool | JUndefined

record worker =
  wk_langs :: "string list"
  wk_oem :: nat
  wk_options :: "string \<rightharpoonup> jsval"

datatype log_entry =
    LogDownloading string string
  | LogInstalled
  | LogListError error

record world =
  files :: fsys
  logged :: "log_entry list"
  requests :: "(string \<times> nat) list"
  workers :: "worker list"

text \<open>
  The state the service acts on: the file system, the entries given to the logger, the
  HTTP requests issued for training data and the workers the recognition engine has
  constructed. A log entry keeps the data of the message, not its wording.
\<close>

definition Tesseract_createWorker ::
  "string list \<Rightarrow> nat \<Rightarrow> (string \<rightharpoonup> jsval) \<Rightarrow> world \<Rightarrow> (error + worker) \<times> world" where
  \<comment> \<open>\<open>createWorker\<close> of \<open>tesseract.js\<close>: the engine constructs a worker from the languages,
      the engine mode and the options. What the engine does with them is not part of
      this program.\<close>
  "Tesseract_createWorker langs oem options w =
     (let wk = \<lparr>wk_langs = langs, wk_oem = oem, wk_options = options\<rparr>
      in (Inr wk, w\<lparr>workers := workers w @ [wk]\<rparr>))"

section \<open>The service\<close>

record config =
  langPath :: string
  source :: string
  downloadTimeout :: nat

definition get_langPath :: "config \<Rightarrow> env \<Rightarrow> string" where
  \<comment> \<open>\<open>get langPath()\<close>\<close>
  "get_langPath cfg env = path_resolve (process_cwd env) [baseDir env, langPath cfg]"

definition installLang :: "config \<Rightarrow> env \<Rightarrow> string \<Rightarrow> world \<Rightarrow> (error + unit) \<times> world" where
  "installLang cfg env lang w =
     (let gzipFileName = lang @ ''.traineddata.gz'';
          gzipFilePath = path_resolve (process_cwd env) [get_langPath cfg env, gzipFileName];
          url = replace_file gzipFileName (replace_lang lang (source cfg));
          w1 = w\<lparr>logged := logged w @ [LogDownloading url gzipFilePath],
                 requests := requests w @ [(url, downloadTimeout cfg)]\<rparr>
      in case http_get env url (downloadTimeout cfg) of
           Inl err \<Rightarrow> (Inl err, w1)
         | Inr resp \<Rightarrow>
             (case fs_mkdir env (files w1) (get_langPath cfg env) of
                Inl err \<Rightarrow> (Inl err, w1)
              | Inr fs1 \<Rightarrow>
                  (case pipeTo_file env fs1 resp gzipFilePath of
                     (Inl err, fs2) \<Rightarrow> (Inl err, w1\<lparr>files := fs2\<rparr>)
                   | (Inr u, fs2) \<Rightarrow>
                       (Inr (), w1\<lparr>files := fs2, logged := logged w1 @ [LogInstalled]\<rparr>))))"

definition listLangs_try :: "config \<Rightarrow> env \<Rightarrow> world \<Rightarrow> (error + string list) \<times> world" where
  \<comment> \<open>The \<open>try\<close> block of \<open>getInstalledLangs\<close>.\<close>
  "listLangs_try cfg env w =
     (case fs_mkdir env (files w) (get_langPath cfg env) of
        Inl err \<Rightarrow> (Inl err, w)
      | Inr fs1 \<Rightarrow>
          (case fs_readdir env fs1 (get_langPath cfg env) of
             Inl err \<Rightarrow> (Inl err, w\<lparr>files := fs1\<rparr>)
           | Inr dir \<Rightarrow>
               (Inr (map (\<lambda>s. js_slice s 0 (- 15))
                       (filter (\<lambda>s. endsWith s ''.traineddata.gz'') dir)),
                w\<lparr>files := fs1\<rparr>)))"

definition getInstalledLangs :: "config \<Rightarrow> env \<Rightarrow> world \<Rightarrow> (error + string list) \<times> world" where
  "getInstalledLangs cfg env w =
     (case listLangs_try cfg env w of
        (Inr langs, w1) \<Rightarrow> (Inr langs, w1)
      | (Inl err, w1) \<Rightarrow> (Inr [], w1\<lparr>logged := logged w1 @ [LogListError err]\<rparr>))"

fun promise_all ::
  "(world \<Rightarrow> (error + unit) \<times> world) list \<Rightarrow> world \<Rightarrow> (error + unit list) \<times> world" where
  \<comment> \<open>\<open>Promise.all\<close> over tasks that have all been started: every task runs to its end
      whether or not another fails, and the result is an error when one of them failed.
      The tasks are run one after the other, in the order of the list, and the error is
      that of the first failing task of the list; \<open>Promise.all\<close> itself rejects with the
      rejection that comes first in time. The statements below use the state after all
      tasks, not the error.\<close>
  "promise_all [] w = (Inr [], w)"
| "promise_all (t # ts) w =
     (case t w of
        (r, w1) \<Rightarrow>
          (case promise_all ts w1 of
             (rs, w2) \<Rightarrow>
               ((case r of
                   Inl e \<Rightarrow> Inl e
                 | Inr u \<Rightarrow> (case rs of Inl e \<Rightarrow> Inl e | Inr us \<Rightarrow> Inr (u # us))),
                w2)))"

definition installNecessaryLangs ::
  "config \<Rightarrow> env \<Rightarrow> string list \<Rightarrow> world \<Rightarrow> (error + unit) \<times> world" where
  "installNecessaryLangs cfg env langs w =
     (case getInstalledLangs cfg env w of
        (Inl err, w1) \<Rightarrow> (Inl err, w1)
      | (Inr installedLangs, w1) \<Rightarrow>
          (case promise_all
                  (map (\<lambda>lang. installLang cfg env lang)
                     (filter (\<lambda>lang. \<not> js_includes installedLangs lang) langs)) w1 of
             (Inl err, w2) \<Rightarrow> (Inl err, w2)
           | (Inr us, w2) \<Rightarrow> (Inr (), w2)))"

definition missing_message :: string where
  \<comment> \<open>The text before the codes in the error of \<open>createWorker\<close>, in UTF-8.\<close>
  "missing_message =
     [CHR 0xE7, CHR 0xBC, CHR 0xBA, CHR 0xE5, CHR 0xA4, CHR 0xB1] @ '' Tesseract.js '' @
     [CHR 0xE8, CHR 0xAF, CHR 0xAD, CHR 0xE8, CHR 0xA8, CHR 0x80, CHR 0xE8, CHR 0xAE, CHR 0xAD,
      CHR 0xE7, CHR 0xBB, CHR 0x83, CHR 0xE6, CHR 0x95, CHR 0xB0, CHR 0xE6, CHR 0x8D, CHR 0xAE,
      CHR 0xEF, CHR 0xBC, CHR 0x9A]"

definition createWorker ::
  "config \<Rightarrow> env \<Rightarrow> string list \<Rightarrow> (string \<rightharpoonup> jsval) \<Rightarrow> world \<Rightarrow> (error + worker) \<times> world" where
  "createWorker cfg env langs options w =
     (case getInstalledLangs cfg env w of
        (Inl err, w1) \<Rightarrow> (Inl err, w1)
      | (Inr installedLangs, w1) \<Rightarrow>
          (let missingLangs = filter (\<lambda>lang. \<not> js_includes installedLangs lang) langs
           in if length missingLangs \<noteq> 0
              then (Inl (SessionError (missing_message @ join '', '' missingLangs)), w1)
              else Tesseract_createWorker langs 1
                     ([''langPath'' \<mapsto> JStr (get_langPath cfg env)] ++ options) w1))"

definition recognize_worker ::
  "config \<Rightarrow> env \<Rightarrow> string option \<Rightarrow> world \<Rightarrow> (error + worker) \<times> world" where
  \<comment> \<open>The \<open>tesseract.recognize\<close> action from the choice of the languages to the worker:
      \<open>options.langs\<close> is absent (\<open>None\<close>) or the text given after \<open>-l\<close>; an absent or empty
      text is falsy.\<close>
  "recognize_worker cfg env options_langs w =
     (case (case options_langs of
              Some (c # cs) \<Rightarrow> (Inr (split_on CHR '','' (c # cs)), w)
            | _ \<Rightarrow>
                (case getInstalledLangs cfg env w of
                   (Inl err, w1) \<Rightarrow> (Inl err, w1)
                 | (Inr ls, w1) \<Rightarrow> (Inr (js_slice ls 0 1), w1))) of
        (Inl err, w1) \<Rightarrow> (Inl err, w1)
      | (Inr langs, w1) \<Rightarrow> createWorker cfg env langs Map.empty w1)"

section \<open>Notions used in the statements\<close>

definition gzipFilePath :: "config \<Rightarrow> env \<Rightarrow> string \<Rightarrow> string" where
  \<comment> \<open>The constant \<open>gzipFilePath\<close> of \<open>installLang\<close>.\<close>
  "gzipFilePath cfg env lang =
     path_resolve (process_cwd env) [get_langPath cfg env, lang @ ''.traineddata.gz'']"

definition download_url :: "config \<Rightarrow> string \<Rightarrow> string" where
  \<comment> \<open>The constant \<open>url\<close> of \<open>installLang\<close>.\<close>
  "download_url cfg lang =
     replace_file (lang @ ''.traineddata.gz'') (replace_lang lang (source cfg))"

definition dest_path :: "config \<Rightarrow> env \<Rightarrow> string \<Rightarrow> string list" where
  \<comment> \<open>The entry of the file system that \<open>installLang\<close> writes.\<close>
  "dest_path cfg env lang = fs_path (gzipFilePath cfg env lang)"

definition isAbsolute :: "string \<Rightarrow> bool" where
  \<comment> \<open>\<open>path.isAbsolute\<close> on POSIX.\<close>
  "isAbsolute p = (case p of [] \<Rightarrow> False | c # r \<Rightarrow> c = CHR ''/'')"

definition plain :: "string \<Rightarrow> bool" where
  \<comment> \<open>A segment that names an entry: not empty, not \<open>.\<close> or \<open>..\<close>, without a slash.\<close>
  "plain seg = (seg \<noteq> [] \<and> seg \<noteq> ''.'' \<and> seg \<noteq> ''..'' \<and> CHR ''/'' \<notin> set seg)"

fun dirs_exist :: "fsys \<Rightarrow> string list \<Rightarrow> string list \<Rightarrow> bool" where
  \<comment> \<open>Below \<open>pre\<close>, every directory on the way along \<open>segs\<close> exists.\<close>
  "dirs_exist fs pre [] = True"
| "dirs_exist fs pre (s # ss) =
     (fs_lookup fs (pre @ [s]) = Some Dir \<and> dirs_exist fs (pre @ [s]) ss)"

section \<open>Example configurations\<close>

definition ex_cfg :: config where
  "ex_cfg = \<lparr>langPath = ''data/tesseract'',
             source = ''https://unpkg.com/@tesseract.js-data/{lang}/4.0.0_best_int/{file}'',
             downloadTimeout = 30000\<rparr>"

definition ex_http :: "string \<Rightarrow> nat \<Rightarrow> error + response" where
  \<comment> \<open>A server that answers every request with a body naming the URL.\<close>
  "ex_http url t = Inr \<lparr>body = ''data of '' @ url, stream_error = None\<rparr>"

definition ex_env :: env where
  "ex_env = \<lparr>cwd_dirs = [''srv''], baseDir = ''/srv/bot'', http_get = ex_http,
             io_fault = (\<lambda>op. None)\<rparr>"

definition ex_env_unreadable :: env where
  \<comment> \<open>As \<open>ex_env\<close>, but no directory may be listed.\<close>
  "ex_env_unreadable = ex_env\<lparr>io_fault :=
     (\<lambda>op. case op of OpReaddir p \<Rightarrow> Some (FsError ''EACCES'') | _ \<Rightarrow> None)\<rparr>"

definition ex_env_offline :: env where
  \<comment> \<open>As \<open>ex_env\<close>, but every request times out.\<close>
  "ex_env_offline = ex_env\<lparr>http_get := (\<lambda>url t. Inl (HttpError ''ETIMEDOUT''))\<rparr>"

definition ex_env_updated :: env where
  \<comment> \<open>As \<open>ex_env\<close>, after the server's content has changed.\<close>
  "ex_env_updated = ex_env\<lparr>http_get :=
     (\<lambda>url t. Inr \<lparr>body = ''newer data'', stream_error = None\<rparr>)\<rparr>"

definition ex_files :: fsys where
  "ex_files =
     [([''srv''], Dir), ([''srv'', ''bot''], Dir), ([''srv'', ''bot'', ''data''], Dir),
      ([''srv'', ''bot'', ''data'', ''tesseract''], Dir),
      ([''srv'', ''bot'', ''data'', ''tesseract'', ''eng.traineddata.gz''], File ''ENG''),
      ([''srv'', ''bot'', ''data'', ''tesseract'', ''notes.txt''], File ''n''),
      ([''srv'', ''bot'', ''data'', ''tesseract'', ''traineddata.gz''], File ''t''),
      ([''tmp''], Dir)]"

definition ex_dirs :: fsys where
  \<comment> \<open>The directories that creating the asset root adds to an empty file system.\<close>
  "ex_dirs = [([''srv''], Dir), ([''srv'', ''bot''], Dir), ([''srv'', ''bot'', ''data''], Dir),
            ([''srv'', ''bot'', ''data'', ''tesseract''], Dir)]"

definition ex_world :: world where
  "ex_world = \<lparr>files = ex_files, logged = [], requests = [], workers = []\<rparr>"

definition ex_world_empty :: world where
  "ex_world_empty = \<lparr>files = [], logged = [], requests = [], workers = []\<rparr>"

section \<open>Evaluation of the examples\<close>

lemma ex_env_sel [simp]:
  "io_fault ex_env op = None" "http_get ex_env = ex_http"
  "io_fault ex_env_updated op = None" "io_fault ex_env_offline op = None"
  "io_fault ex_env_unreadable (OpMkdir p) = None" "io_fault ex_env_unreadable (OpOpen p) = None"
  "io_fault ex_env_unreadable (OpReaddir p) = Some (FsError ''EACCES'')"
  "http_get ex_env_offline url t = Inl (HttpError ''ETIMEDOUT'')"
  "http_get ex_env_updated url t = Inr \<lparr>body = ''newer data'', stream_error = None\<rparr>"
  by (simp_all add: ex_env_def ex_env_unreadable_def ex_env_offline_def ex_env_updated_def)

lemma ex_world_sel [simp]:
  "files ex_world = ex_files" "workers ex_world = []" "requests ex_world = []"
  "logged ex_world = []"
  "files ex_world_empty = []" "workers ex_world_empty = []" "requests ex_world_empty = []"
  by (simp_all add: ex_world_def ex_world_empty_def)

lemma ex_root [simp]:
  "get_langPath ex_cfg ex_env = ''/srv/bot/data/tesseract''"
  "get_langPath ex_cfg ex_env_unreadable = ''/srv/bot/data/tesseract''"
  "get_langPath ex_cfg ex_env_offline = ''/srv/bot/data/tesseract''"
  "get_langPath ex_cfg ex_env_updated = ''/srv/bot/data/tesseract''"
  by (simp_all add: get_langPath_def path_resolve_def process_cwd_def normalizeString_def
      norm_segs_def ex_cfg_def ex_env_def ex_env_unreadable_def ex_env_offline_def
      ex_env_updated_def)

lemma ex_root_path [simp]:
  "fs_path ''/srv/bot/data/tesseract'' = [''srv'', ''bot'', ''data'', ''tesseract'']"
  by (simp add: fs_path_def norm_segs_def)

lemma ex_mkdir [simp]:
  "fs_mkdir ex_env ex_files ''/srv/bot/data/tesseract'' = Inr ex_files"
  "fs_mkdir ex_env_unreadable ex_files ''/srv/bot/data/tesseract'' = Inr ex_files"
  by (simp_all add: fs_mkdir_def fs_lookup_def ex_files_def)

lemma ex_readdir [simp]:
  "fs_readdir ex_env ex_files ''/srv/bot/data/tesseract''
     = Inr [''eng.traineddata.gz'', ''notes.txt'', ''traineddata.gz'']"
  by (simp add: fs_readdir_def fs_lookup_def children_def ex_files_def)

section \<open>Listing the installed languages\<close>

lemma endsWith_suffix: "endsWith s t = suffix t s"
proof
  assume "endsWith s t"
  then have "s = take (length s - length t) s @ t"
    by (metis append_take_drop_id endsWith_def)
  then show "suffix t s" unfolding suffix_def by blast
next
  assume "suffix t s"
  then obtain zs where "s = zs @ t" unfolding suffix_def by blast
  then show "endsWith s t" by (simp add: endsWith_def)
qed

lemma js_slice_take: "js_slice s 0 (- 15) = take (length s - 15) s"
  by (auto simp add: js_slice_def Let_def max_def nat_diff_distrib')

lemma listLangs_try_cases:
  "listLangs_try cfg env w =
    (case fs_mkdir env (files w) (get_langPath cfg env) of
       Inl e \<Rightarrow> (Inl e, w)
     | Inr fs1 \<Rightarrow>
         (case fs_readdir env fs1 (get_langPath cfg env) of
            Inl e \<Rightarrow> (Inl e, w\<lparr>files := fs1\<rparr>)
          | Inr dir \<Rightarrow>
              (Inr (map (\<lambda>s. take (length s - 15) s) (filter (suffix ''.traineddata.gz'') dir)),
               w\<lparr>files := fs1\<rparr>)))"
  by (simp add: listLangs_try_def endsWith_suffix js_slice_take split: sum.splits)

lemma getInstalledLangs_cases:
  "getInstalledLangs cfg env w =
    (case fs_mkdir env (files w) (get_langPath cfg env) of
       Inl e \<Rightarrow> (Inr [], w\<lparr>logged := logged w @ [LogListError e]\<rparr>)
     | Inr fs1 \<Rightarrow>
         (case fs_readdir env fs1 (get_langPath cfg env) of
            Inl e \<Rightarrow> (Inr [], w\<lparr>files := fs1, logged := logged w @ [LogListError e]\<rparr>)
          | Inr dir \<Rightarrow>
              (Inr (map (\<lambda>s. take (length s - 15) s) (filter (suffix ''.traineddata.gz'') dir)),
               w\<lparr>files := fs1\<rparr>)))"
  by (simp add: getInstalledLangs_def listLangs_try_cases split: sum.splits)

lemma strip_suffixed_set:
  "set (map (\<lambda>e. take (length e - 15) e) (filter (suffix ''.traineddata.gz'') dir))
     = {l. l @ ''.traineddata.gz'' \<in> set dir}"
proof (intro set_eqI iffI)
  fix l
  assume "l \<in> set (map (\<lambda>e. take (length e - 15) e) (filter (suffix ''.traineddata.gz'') dir))"
  then obtain e where e: "e \<in> set dir" "suffix ''.traineddata.gz'' e"
    "l = take (length e - 15) e" by auto
  from e(2) have "take (length e - 15) e @ ''.traineddata.gz'' = e"
    by (auto simp: suffix_def)
  with e show "l \<in> {l. l @ ''.traineddata.gz'' \<in> set dir}" by simp
next
  fix l
  assume "l \<in> {l. l @ ''.traineddata.gz'' \<in> set dir}"
  then have m: "l @ ''.traineddata.gz'' \<in> set dir" by simp
  have s: "suffix ''.traineddata.gz'' (l @ ''.traineddata.gz'')" by (simp add: suffix_def)
  have t: "take (length (l @ ''.traineddata.gz'') - 15) (l @ ''.traineddata.gz'') = l" by simp
  from m s have "l @ ''.traineddata.gz'' \<in> set (filter (suffix ''.traineddata.gz'') dir)"
    by simp
  then have "take (length (l @ ''.traineddata.gz'') - 15) (l @ ''.traineddata.gz'') \<in>
       (\<lambda>e. take (length e - 15) e) ` set (filter (suffix ''.traineddata.gz'') dir)"
    by (rule imageI)
  with t show "l \<in> set (map (\<lambda>e. take (length e - 15) e)
       (filter (suffix ''.traineddata.gz'') dir))" by simp
qed

lemma getInstalledLangs_Inr: "\<exists>langs. fst (getInstalledLangs cfg env w) = Inr langs"
  by (simp add: getInstalledLangs_cases split: sum.splits)

lemma getInstalledLangs_result:
  obtains installed w1 where "getInstalledLangs cfg env w = (Inr installed, w1)"
  using getInstalledLangs_Inr[of cfg env w] by (cases "getInstalledLangs cfg env w") auto

lemma getInstalledLangs_frame:
  "workers (snd (getInstalledLangs cfg env w)) = workers w"
  "requests (snd (getInstalledLangs cfg env w)) = requests w"
  by (simp_all add: getInstalledLangs_cases split: sum.splits)

lemma ex_installed [simp]:
  "getInstalledLangs ex_cfg ex_env ex_world = (Inr [''eng''], ex_world)"
  by (simp add: getInstalledLangs_cases suffix_to_prefix ex_world_def)

lemma ex_installed_empty [simp]:
  "fst (getInstalledLangs ex_cfg ex_env ex_world_empty) = Inr []"
  by (simp add: getInstalledLangs_cases fs_mkdir_def fs_readdir_def fs_lookup_def children_def)

text \<open>
  C2. When the asset root can be created and listed, \<open>getInstalledLangs\<close> returns the
  entries of the asset root that end with \<open>.traineddata.gz\<close>, each without these last 15
  units, in the order of the listing: a code \<open>l\<close> is returned exactly when the entry
  \<open>l.traineddata.gz\<close> is in the directory.
\<close>

theorem getInstalledLangs_lists_suffixed_entries:
  assumes "fs_mkdir env (files w) (get_langPath cfg env) = Inr fs1"
    and "fs_readdir env fs1 (get_langPath cfg env) = Inr dir"
  shows "dir = children fs1 (fs_path (get_langPath cfg env)) \<and>
     fst (getInstalledLangs cfg env w) =
       Inr (map (\<lambda>e. take (length e - length ''.traineddata.gz'') e)
              (filter (suffix ''.traineddata.gz'') dir)) \<and>
     (\<forall>l. (\<exists>langs. fst (getInstalledLangs cfg env w) = Inr langs \<and> l \<in> set langs)
            = (l @ ''.traineddata.gz'' \<in> set dir)) \<and>
     length ''.traineddata.gz'' = 15"
proof -
  have d: "dir = children fs1 (fs_path (get_langPath cfg env))"
    using assms(2) by (auto simp: fs_readdir_def split: option.splits node.splits)
  have r: "fst (getInstalledLangs cfg env w) =
       Inr (map (\<lambda>e. take (length e - 15) e) (filter (suffix ''.traineddata.gz'') dir))"
    using assms by (simp add: getInstalledLangs_cases)
  have m: "(\<exists>langs. fst (getInstalledLangs cfg env w) = Inr langs \<and> l \<in> set langs)
            = (l @ ''.traineddata.gz'' \<in> set dir)" for l
    using strip_suffixed_set[of dir] unfolding r by auto
  have len: "length ''.traineddata.gz'' = 15" by simp
  show ?thesis unfolding len using d r m by blast
qed

theorem getInstalledLangs_lists_suffixed_entries_witness:
  "fs_mkdir ex_env (files ex_world) (get_langPath ex_cfg ex_env) = Inr ex_files \<and>
   fs_readdir ex_env ex_files (get_langPath ex_cfg ex_env)
     = Inr [''eng.traineddata.gz'', ''notes.txt'', ''traineddata.gz''] \<and>
   fst (getInstalledLangs ex_cfg ex_env ex_world) = Inr [''eng'']"
proof -
  have h1: "fs_mkdir ex_env (files ex_world) (get_langPath ex_cfg ex_env) = Inr ex_files"
    by simp
  have h2: "fs_readdir ex_env ex_files (get_langPath ex_cfg ex_env)
     = Inr [''eng.traineddata.gz'', ''notes.txt'', ''traineddata.gz'']"
    by simp
  have v: "map (\<lambda>e. take (length e - length ''.traineddata.gz'') e)
              (filter (suffix ''.traineddata.gz'')
                 [''eng.traineddata.gz'', ''notes.txt'', ''traineddata.gz'']) = [''eng'']"
    by (simp add: suffix_to_prefix)
  from getInstalledLangs_lists_suffixed_entries[OF h1 h2]
  have "fst (getInstalledLangs ex_cfg ex_env ex_world) =
       Inr (map (\<lambda>e. take (length e - length ''.traineddata.gz'') e)
              (filter (suffix ''.traineddata.gz'')
                 [''eng.traineddata.gz'', ''notes.txt'', ''traineddata.gz'']))" by blast
  then have "fst (getInstalledLangs ex_cfg ex_env ex_world) = Inr [''eng'']" unfolding v .
  with h1 h2 show ?thesis by blast
qed

text \<open>
  C4. \<open>getInstalledLangs\<close> never throws: it always returns a list. When the creation of
  the asset root fails, or the listing of the directory fails, the list is empty and the
  error goes to the logger.
\<close>

theorem getInstalledLangs_never_throws:
  "(\<exists>langs. fst (getInstalledLangs cfg env w) = Inr langs) \<and>
   (\<forall>e. fs_mkdir env (files w) (get_langPath cfg env) = Inl e \<longrightarrow>
        getInstalledLangs cfg env w = (Inr [], w\<lparr>logged := logged w @ [LogListError e]\<rparr>)) \<and>
   (\<forall>fs1 e. fs_mkdir env (files w) (get_langPath cfg env) = Inr fs1 \<and>
        fs_readdir env fs1 (get_langPath cfg env) = Inl e \<longrightarrow>
        getInstalledLangs cfg env w =
          (Inr [], w\<lparr>files := fs1, logged := logged w @ [LogListError e]\<rparr>))"
  by (simp add: getInstalledLangs_cases split: sum.splits)

theorem getInstalledLangs_never_throws_witness:
  "fs_mkdir ex_env_unreadable (files ex_world) (get_langPath ex_cfg ex_env_unreadable)
     = Inr ex_files \<and>
   fs_readdir ex_env_unreadable ex_files (get_langPath ex_cfg ex_env_unreadable)
     = Inl (FsError ''EACCES'') \<and>
   getInstalledLangs ex_cfg ex_env_unreadable ex_world
     = (Inr [], ex_world\<lparr>files := ex_files,
                  logged := logged ex_world @ [LogListError (FsError ''EACCES'')]\<rparr>)"
proof -
  have h1: "fs_mkdir ex_env_unreadable (files ex_world) (get_langPath ex_cfg ex_env_unreadable)
     = Inr ex_files"
    by simp
  have h2: "fs_readdir ex_env_unreadable ex_files (get_langPath ex_cfg ex_env_unreadable)
     = Inl (FsError ''EACCES'')"
    by (simp add: fs_readdir_def)
  from getInstalledLangs_never_throws[of ex_cfg ex_env_unreadable ex_world] h1 h2
  show ?thesis by blast
qed

section \<open>The worker factory\<close>

lemma createWorker_cases:
  assumes "getInstalledLangs cfg env w = (Inr installed, w1)"
  shows "createWorker cfg env langs options w =
    (if filter (\<lambda>l. l \<notin> set installed) langs \<noteq> []
     then (Inl (SessionError (missing_message
                  @ join '', '' (filter (\<lambda>l. l \<notin> set installed) langs))), w1)
     else (Inr \<lparr>wk_langs = langs, wk_oem = 1,
                wk_options = [''langPath'' \<mapsto> JStr (get_langPath cfg env)] ++ options\<rparr>,
           w1\<lparr>workers := workers w1 @
                [\<lparr>wk_langs = langs, wk_oem = 1,
                  wk_options = [''langPath'' \<mapsto> JStr (get_langPath cfg env)] ++ options\<rparr>]\<rparr>))"
  using assms by (simp add: createWorker_def Let_def js_includes_def Tesseract_createWorker_def)

text \<open>
  C1. \<open>createWorker\<close> compares \<open>langs\<close> with the result of \<open>getInstalledLangs\<close> in the state
  of the call. The codes of \<open>langs\<close> that are not in that result are the missing ones. When
  there are any, the call fails with an error whose message names them, joined by a comma
  and a space, and the engine constructs no worker; when there are none, the engine
  constructs one worker and the call returns it.
\<close>

theorem createWorker_checks_installed:
  "\<exists>installed. fst (getInstalledLangs cfg env w) = Inr installed \<and>
     (let missing = filter (\<lambda>l. l \<notin> set installed) langs in
        set missing = set langs - set installed \<and>
        (missing \<noteq> [] \<longrightarrow>
           fst (createWorker cfg env langs options w)
             = Inl (SessionError (missing_message @ join '', '' missing)) \<and>
           workers (snd (createWorker cfg env langs options w)) = workers w) \<and>
        (missing = [] \<longrightarrow>
           (\<exists>wk. fst (createWorker cfg env langs options w) = Inr wk \<and>
                 workers (snd (createWorker cfg env langs options w)) = workers w @ [wk])))"
proof -
  obtain installed w1 where g: "getInstalledLangs cfg env w = (Inr installed, w1)"
    by (rule getInstalledLangs_result)
  have w1: "workers w1 = workers w"
    using getInstalledLangs_frame(1)[of cfg env w] g by simp
  show ?thesis
    using g w1 by (auto simp: createWorker_cases[OF g] Let_def)
qed

theorem createWorker_checks_installed_witness:
  "fst (createWorker ex_cfg ex_env [''eng'', ''fra'', ''deu''] Map.empty ex_world)
     = Inl (SessionError (missing_message @ ''fra, deu'')) \<and>
   workers (snd (createWorker ex_cfg ex_env [''eng'', ''fra'', ''deu''] Map.empty ex_world)) = [] \<and>
   (\<exists>wk. fst (createWorker ex_cfg ex_env [''eng''] Map.empty ex_world) = Inr wk \<and>
     workers (snd (createWorker ex_cfg ex_env [''eng''] Map.empty ex_world)) = [wk])"
proof -
  have a: "fst (createWorker ex_cfg ex_env [''eng'', ''fra'', ''deu''] Map.empty ex_world)
     = Inl (SessionError (missing_message @ ''fra, deu'')) \<and>
   workers (snd (createWorker ex_cfg ex_env [''eng'', ''fra'', ''deu''] Map.empty ex_world)) = []"
    using createWorker_checks_installed[of ex_cfg ex_env ex_world
        "[''eng'', ''fra'', ''deu'']" Map.empty]
    by (simp add: Let_def)
  have b: "\<exists>wk. fst (createWorker ex_cfg ex_env [''eng''] Map.empty ex_world) = Inr wk \<and>
     workers (snd (createWorker ex_cfg ex_env [''eng''] Map.empty ex_world)) = [wk]"
    using createWorker_checks_installed[of ex_cfg ex_env ex_world "[''eng'']" Map.empty]
    by (simp add: Let_def)
  from a b show ?thesis by blast
qed

text \<open>
  C9. \<open>createWorker\<close> with no language code never fails with the missing-data error: the
  engine constructs a worker for the empty list, whatever is installed. So the
  \<open>tesseract.recognize\<close> action without the \<open>-l\<close> option, when no language is installed,
  constructs a worker for the empty list of languages.
\<close>

theorem createWorker_no_langs:
  "(\<exists>wk. fst (createWorker cfg env [] options w) = Inr wk \<and> wk_langs wk = [] \<and>
         workers (snd (createWorker cfg env [] options w)) = workers w @ [wk]) \<and>
   (fst (getInstalledLangs cfg env w) = Inr [] \<longrightarrow>
      (\<exists>wk. fst (recognize_worker cfg env None w) = Inr wk \<and> wk_langs wk = [] \<and>
            workers (snd (recognize_worker cfg env None w)) = workers w @ [wk]))"
proof -
  have a: "\<exists>wk. fst (createWorker cfg env [] opts v) = Inr wk \<and> wk_langs wk = [] \<and>
         workers (snd (createWorker cfg env [] opts v)) = workers v @ [wk]" for v opts
  proof -
    obtain installed w1 where g: "getInstalledLangs cfg env v = (Inr installed, w1)"
      by (rule getInstalledLangs_result)
    have w1: "workers w1 = workers v"
      using getInstalledLangs_frame(1)[of cfg env v] g by simp
    show ?thesis using w1 by (simp add: createWorker_cases[OF g])
  qed
  have b: "\<exists>wk. fst (recognize_worker cfg env None w) = Inr wk \<and> wk_langs wk = [] \<and>
            workers (snd (recognize_worker cfg env None w)) = workers w @ [wk]"
    if h: "fst (getInstalledLangs cfg env w) = Inr []"
  proof -
    obtain w1 where g: "getInstalledLangs cfg env w = (Inr [], w1)"
      using h by (cases "getInstalledLangs cfg env w") auto
    have w1: "workers w1 = workers w"
      using getInstalledLangs_frame(1)[of cfg env w] g by simp
    have r: "recognize_worker cfg env None w = createWorker cfg env [] Map.empty w1"
      using g by (simp add: recognize_worker_def js_slice_def)
    show ?thesis using a[of Map.empty w1] unfolding r w1 by simp
  qed
  from a[of options w] b show ?thesis by blast
qed

theorem createWorker_no_langs_witness:
  "fst (getInstalledLangs ex_cfg ex_env ex_world_empty) = Inr [] \<and>
   (\<exists>wk. fst (recognize_worker ex_cfg ex_env None ex_world_empty) = Inr wk \<and> wk_langs wk = [] \<and>
      workers (snd (recognize_worker ex_cfg ex_env None ex_world_empty)) = [wk])"
  using createWorker_no_langs[of ex_cfg ex_env Map.empty ex_world_empty]
  by simp

text \<open>
  C7, amended. The worker that \<open>createWorker\<close> returns has the given languages, the engine
  mode 1 and the options \<open>{ langPath: asset root, ...options }\<close>: every option the caller
  supplies has the caller's value, and \<open>langPath\<close> is the asset root when the caller
  supplies no \<open>langPath\<close> of their own.
\<close>

theorem createWorker_options_merged:
  assumes "fst (createWorker cfg env langs options w) = Inr wk"
  shows "wk_langs wk = langs \<and> wk_oem wk = 1 \<and>
     wk_options wk = [''langPath'' \<mapsto> JStr (get_langPath cfg env)] ++ options \<and>
     (\<forall>k v. options k = Some v \<longrightarrow> wk_options wk k = Some v) \<and>
     (options ''langPath'' = None \<longrightarrow>
        wk_options wk ''langPath'' = Some (JStr (get_langPath cfg env)))"
proof -
  obtain installed w1 where g: "getInstalledLangs cfg env w = (Inr installed, w1)"
    by (rule getInstalledLangs_result)
  have "wk = \<lparr>wk_langs = langs, wk_oem = 1,
               wk_options = [''langPath'' \<mapsto> JStr (get_langPath cfg env)] ++ options\<rparr>"
    using assms by (auto simp: createWorker_cases[OF g] split: if_splits)
  then show ?thesis by (auto simp: map_add_def split: option.splits)
qed

theorem createWorker_options_merged_witness:
  "fst (createWorker ex_cfg ex_env [''eng''] [''logging'' \<mapsto> JBool True] ex_world)
     = Inr \<lparr>wk_langs = [''eng''], wk_oem = 1,
            wk_options = [''langPath'' \<mapsto> JStr ''/srv/bot/data/tesseract'',
                          ''logging'' \<mapsto> JBool True]\<rparr> \<and>
   (case fst (createWorker ex_cfg ex_env [''eng''] [''logging'' \<mapsto> JBool True] ex_world) of
      Inl e \<Rightarrow> False
    | Inr wk \<Rightarrow> wk_langs wk = [''eng''] \<and> wk_oem wk = 1 \<and>
        wk_options wk ''logging'' = Some (JBool True) \<and>
        wk_options wk ''langPath'' = Some (JStr ''/srv/bot/data/tesseract''))"
proof -
  have wk: "fst (createWorker ex_cfg ex_env [''eng''] [''logging'' \<mapsto> JBool True] ex_world)
     = Inr \<lparr>wk_langs = [''eng''], wk_oem = 1,
            wk_options = [''langPath'' \<mapsto> JStr ''/srv/bot/data/tesseract'',
                          ''logging'' \<mapsto> JBool True]\<rparr>"
    by (simp add: createWorker_cases[OF ex_installed(1)])
  from createWorker_options_merged[OF wk] wk show ?thesis by simp
qed

theorem createWorker_langPath_counterexample:
  "fst (createWorker ex_cfg ex_env [''eng''] [''langPath'' \<mapsto> JStr ''/elsewhere''] ex_world)
     = Inr \<lparr>wk_langs = [''eng''], wk_oem = 1,
            wk_options = [''langPath'' \<mapsto> JStr ''/elsewhere'']\<rparr> \<and>
   get_langPath ex_cfg ex_env = ''/srv/bot/data/tesseract'' \<and>
   JStr ''/elsewhere'' \<noteq> JStr (get_langPath ex_cfg ex_env)"
  by (simp add: createWorker_cases[OF ex_installed(1)])

text \<open>
  C10. When the HTTP request of \<open>installLang\<close> fails, \<open>installLang\<close> fails with that error
  and the file system is as it was: no directory has been created and no file written.
\<close>

theorem installLang_http_failure_no_writes:
  assumes "http_get env (replace_file (lang @ ''.traineddata.gz'')
                           (replace_lang lang (source cfg))) (downloadTimeout cfg) = Inl e"
  shows "fst (installLang cfg env lang w) = Inl e \<and>
     files (snd (installLang cfg env lang w)) = files w"
  using assms by (simp add: installLang_def Let_def)

theorem installLang_http_failure_no_writes_witness:
  "http_get ex_env_offline
      (replace_file (''eng'' @ ''.traineddata.gz'') (replace_lang ''eng'' (source ex_cfg)))
      (downloadTimeout ex_cfg) = Inl (HttpError ''ETIMEDOUT'') \<and>
   fst (installLang ex_cfg ex_env_offline ''eng'' ex_world_empty) = Inl (HttpError ''ETIMEDOUT'') \<and>
   files (snd (installLang ex_cfg ex_env_offline ''eng'' ex_world_empty)) = []"
proof -
  have h: "http_get ex_env_offline
      (replace_file (''eng'' @ ''.traineddata.gz'') (replace_lang ''eng'' (source ex_cfg)))
      (downloadTimeout ex_cfg) = Inl (HttpError ''ETIMEDOUT'')"
    by simp
  from installLang_http_failure_no_writes[OF h, of ex_world_empty] h
  show ?thesis by simp
qed

section \<open>Properties of splitting and joining\<close>

lemma split_on_nonempty [simp]: "split_on c s \<noteq> []"
  by (induction s) (auto split: list.splits)

lemma split_on_append: "split_on c (a @ c # b) = split_on c a @ split_on c b"
  by (induction a) (auto split: list.splits)

lemma split_on_free: "c \<notin> set s \<Longrightarrow> split_on c s = [s]"
  by (induction s) auto

lemma split_on_segments: "seg \<in> set (split_on c s) \<Longrightarrow> c \<notin> set seg"
  by (induction s arbitrary: seg) (auto split: if_splits list.splits)

lemma split_on_join:
  "segs \<noteq> [] \<Longrightarrow> \<forall>seg \<in> set segs. c \<notin> set seg \<Longrightarrow> split_on c (join [c] segs) = segs"
proof (induction "[c]" segs rule: join.induct)
  case 1
  then show ?case by simp
next
  case (2 x)
  then show ?case by (simp add: split_on_free)
next
  case (3 x y ys)
  then show ?case by (simp add: split_on_append split_on_free)
qed

section \<open>Normalising an absolute path\<close>

lemma norm_plain: "\<forall>seg \<in> set segs. plain seg \<Longrightarrow> foldl (norm_step False) acc segs = acc @ segs"
  by (induction segs arbitrary: acc) (auto simp: plain_def)

lemma norm_step_plain:
  "\<forall>a \<in> set acc. plain a \<Longrightarrow> CHR ''/'' \<notin> set seg \<Longrightarrow> \<forall>a \<in> set (norm_step False acc seg). plain a"
  by (auto simp: plain_def dest: in_set_butlastD)

lemma norm_all_plain:
  "\<forall>a \<in> set acc. plain a \<Longrightarrow> \<forall>seg \<in> set segs. CHR ''/'' \<notin> set seg
    \<Longrightarrow> \<forall>a \<in> set (foldl (norm_step False) acc segs). plain a"
proof (induction segs arbitrary: acc)
  case Nil
  then show ?case by simp
next
  case (Cons s segs)
  have s: "CHR ''/'' \<notin> set s" and r: "\<forall>seg \<in> set segs. CHR ''/'' \<notin> set seg"
    using Cons.prems(2) by simp_all
  have "\<forall>a \<in> set (norm_step False acc s). plain a"
    by (rule norm_step_plain[OF Cons.prems(1) s])
  from Cons.IH[OF this r] show ?case by (simp only: foldl_Cons)
qed

lemma norm_segs_plain: "\<forall>a \<in> set (norm_segs False p). plain a"
  unfolding norm_segs_def
  by (rule norm_all_plain) (auto dest: split_on_segments)

lemma fs_path_render:
  assumes "\<forall>a \<in> set segs. plain a"
  shows "fs_path (CHR ''/'' # join ''/'' segs) = segs"
proof (cases "segs = []")
  case True
  then show ?thesis by (simp add: fs_path_def norm_segs_def)
next
  case False
  have "split_on CHR ''/'' (join ''/'' segs) = segs"
    using split_on_join[of segs "CHR ''/''"] False assms by (auto simp: plain_def)
  then show ?thesis
    using norm_plain[OF assms, of "[]"] by (simp add: fs_path_def norm_segs_def)
qed

section \<open>Resolving\<close>

lemma isAbsolute_iff: "isAbsolute p = (\<exists>r. p = CHR ''/'' # r)"
  by (cases p) (auto simp: isAbsolute_def)

lemma resolve_loop_done [simp]: "resolve_loop ps (rp, True) = (rp, True)"
  by (cases ps) auto

lemma resolve_loop_absolute:
  "\<exists>p \<in> set ps. isAbsolute p \<Longrightarrow> snd (resolve_loop ps (rp, ab))"
  by (induction ps arbitrary: rp ab) (auto simp: isAbsolute_iff split: list.splits)

lemma path_resolve_absolute:
  assumes "isAbsolute cwd"
  shows "path_resolve cwd args =
     CHR ''/'' # join ''/'' (norm_segs False (fst (resolve_loop (rev args @ [cwd]) ([], False))))"
proof -
  have "snd (resolve_loop (rev args @ [cwd]) ([], False))"
    by (rule resolve_loop_absolute) (use assms in auto)
  then show ?thesis
    by (cases "resolve_loop (rev args @ [cwd]) ([], False)")
       (simp add: path_resolve_def normalizeString_def)
qed

lemma cwd_absolute [simp]: "isAbsolute (process_cwd env)"
  by (simp add: isAbsolute_iff process_cwd_def)

lemma fs_path_resolve:
  assumes "isAbsolute cwd"
  shows "fs_path (path_resolve cwd args)
     = norm_segs False (fst (resolve_loop (rev args @ [cwd]) ([], False)))"
  unfolding path_resolve_absolute[OF assms]
  by (rule fs_path_render) (rule norm_segs_plain)

lemma langPath_render:
  "get_langPath cfg env = CHR ''/'' # join ''/'' (fs_path (get_langPath cfg env))"
  unfolding get_langPath_def
  by (simp add: fs_path_resolve) (simp add: path_resolve_absolute)

lemma langPath_absolute [simp]: "isAbsolute (get_langPath cfg env)"
  by (subst langPath_render) (simp add: isAbsolute_iff)

lemma norm_segs_append:
  "norm_segs False (a @ CHR ''/'' # b)
     = foldl (norm_step False) (norm_segs False a) (split_on CHR ''/'' b)"
  by (simp add: norm_segs_def split_on_append)

lemma norm_segs_trailing: "norm_segs False (a @ ''/'') = norm_segs False a"
  using norm_segs_append[of a "[]"] by simp

text \<open>The destination of a download whose file name does not begin with a slash.\<close>

lemma dest_relative:
  assumes "isAbsolute root" "name \<noteq> []" "\<not> isAbsolute name" "isAbsolute cwd"
  shows "fs_path (path_resolve cwd [root, name]) = fs_path (root @ ''/'' @ name)"
proof -
  obtain c r where n: "name = c # r" "c \<noteq> CHR ''/''"
    using assms(2,3) by (cases name) (auto simp: isAbsolute_iff)
  obtain rr where ro: "root = CHR ''/'' # rr" using assms(1) by (auto simp: isAbsolute_iff)
  have "fst (resolve_loop (rev [root, name] @ [cwd]) ([], False)) = root @ ''/'' @ name @ ''/''"
    by (simp add: n ro)
  then have "fs_path (path_resolve cwd [root, name]) = norm_segs False ((root @ ''/'' @ name) @ ''/'')"
    by (simp add: fs_path_resolve[OF assms(4)])
  then show ?thesis unfolding norm_segs_trailing by (simp add: fs_path_def)
qed

lemma dest_absolute:
  assumes "isAbsolute name" "isAbsolute cwd"
  shows "fs_path (path_resolve cwd [root, name]) = fs_path name"
proof -
  obtain r where n: "name = CHR ''/'' # r" using assms(1) by (auto simp: isAbsolute_iff)
  have f: "fst (resolve_loop (rev [root, name] @ [cwd]) ([], False)) = name @ ''/''"
    by (simp add: n)
  show ?thesis
    unfolding fs_path_resolve[OF assms(2)] f norm_segs_trailing by (simp add: fs_path_def)
qed

lemma asset_name_plain:
  assumes "CHR ''/'' \<notin> set lang"
  shows "plain (lang @ ''.traineddata.gz'')"
proof -
  have "length (lang @ ''.traineddata.gz'') \<ge> 15" by simp
  then have "lang @ ''.traineddata.gz'' \<noteq> []" "lang @ ''.traineddata.gz'' \<noteq> ''.''"
    "lang @ ''.traineddata.gz'' \<noteq> ''..''"
    by (auto simp del: length_append dest!: arg_cong[where f = length])
  then show ?thesis using assms by (simp add: plain_def)
qed

lemma dest_child:
  assumes "CHR ''/'' \<notin> set lang"
  shows "fs_path (path_resolve (process_cwd env) [get_langPath cfg env, lang @ ''.traineddata.gz''])
     = fs_path (get_langPath cfg env) @ [lang @ ''.traineddata.gz'']"
proof -
  let ?name = "lang @ ''.traineddata.gz''"
  have p: "plain ?name" by (rule asset_name_plain[OF assms])
  then have s: "CHR ''/'' \<notin> set ?name" and ne: "?name \<noteq> []"
    unfolding plain_def by blast+
  have "\<not> isAbsolute ?name"
    unfolding isAbsolute_iff using s by (metis list.set_intros(1))
  with ne have na: "\<not> isAbsolute ?name" "?name \<noteq> []" by blast+
  have "fs_path (path_resolve (process_cwd env) [get_langPath cfg env, ?name])
     = fs_path (get_langPath cfg env @ ''/'' @ ?name)"
    by (rule dest_relative) (use na in simp_all)
  also have "\<dots> = foldl (norm_step False) (fs_path (get_langPath cfg env)) (split_on CHR ''/'' ?name)"
    using norm_segs_append[of "get_langPath cfg env" ?name] by (simp add: fs_path_def)
  also have "\<dots> = fs_path (get_langPath cfg env) @ [?name]"
    using p by (subst split_on_free) (auto simp: plain_def norm_plain simp del: append_assoc)
  finally show ?thesis .
qed

section \<open>Properties of the file system\<close>

lemma lookup_append_new:
  "fs_lookup fs q = None \<Longrightarrow> fs_lookup (fs @ [(q, n)]) p = (if p = q then Some n else fs_lookup fs p)"
  by (auto simp: fs_lookup_def map_add_def split: if_splits option.splits)

lemma mkdir_from_keeps:
  "mkdir_from fs pre segs = Inr fs' \<Longrightarrow> fs_lookup fs p = Some n \<Longrightarrow> fs_lookup fs' p = Some n"
proof (induction segs arbitrary: fs pre)
  case Nil
  then show ?case by simp
next
  case (Cons s segs)
  show ?case
  proof (cases "fs_lookup fs (pre @ [s])")
    case None
    with Cons.prems have m: "mkdir_from (fs @ [(pre @ [s], Dir)]) (pre @ [s]) segs = Inr fs'"
      by simp
    have "fs_lookup (fs @ [(pre @ [s], Dir)]) p = Some n"
      using Cons.prems(2) None by (auto simp: lookup_append_new)
    with Cons.IH[OF m] show ?thesis .
  next
    case (Some nd)
    with Cons.prems show ?thesis
      by (cases nd) (auto intro: Cons.IH)
  qed
qed

lemma dirs_exist_mono:
  "dirs_exist fs pre segs \<Longrightarrow> \<forall>p. fs_lookup fs p = Some Dir \<longrightarrow> fs_lookup fs' p = Some Dir
    \<Longrightarrow> dirs_exist fs' pre segs"
  by (induction segs arbitrary: pre) auto

lemma mkdir_from_dirs:
  "mkdir_from fs pre segs = Inr fs' \<Longrightarrow> dirs_exist fs' pre segs"
proof (induction segs arbitrary: fs pre)
  case Nil
  then show ?case by simp
next
  case (Cons s segs)
  show ?case
  proof (cases "fs_lookup fs (pre @ [s])")
    case None
    with Cons.prems have m: "mkdir_from (fs @ [(pre @ [s], Dir)]) (pre @ [s]) segs = Inr fs'"
      by simp
    have "fs_lookup (fs @ [(pre @ [s], Dir)]) (pre @ [s]) = Some Dir"
      using None by (simp add: lookup_append_new)
    then have "fs_lookup fs' (pre @ [s]) = Some Dir" by (rule mkdir_from_keeps[OF m])
    with Cons.IH[OF m] show ?thesis by simp
  next
    case (Some nd)
    show ?thesis
    proof (cases nd)
      case Dir
      with Some Cons.prems have m: "mkdir_from fs (pre @ [s]) segs = Inr fs'" by simp
      have "fs_lookup fs' (pre @ [s]) = Some Dir"
        using Some Dir by (intro mkdir_from_keeps[OF m]) simp
      with Cons.IH[OF m] show ?thesis by simp
    next
      case (File c)
      with Some Cons.prems show ?thesis by simp
    qed
  qed
qed

lemma mkdir_from_again: "dirs_exist fs pre segs \<Longrightarrow> mkdir_from fs pre segs = Inr fs"
  by (induction segs arbitrary: pre) auto

lemma dirs_exist_last:
  "dirs_exist fs pre segs \<Longrightarrow> fs_lookup fs pre = Some Dir \<Longrightarrow> fs_lookup fs (pre @ segs) = Some Dir"
proof (induction segs arbitrary: pre)
  case Nil
  then show ?case by simp
next
  case (Cons s segs)
  then have "fs_lookup fs ((pre @ [s]) @ segs) = Some Dir" by (intro Cons.IH) simp_all
  then show ?case by simp
qed

lemma lookup_update:
  "q \<noteq> [] \<Longrightarrow> fs_lookup (AList.update q n fs) p = (if p = q then Some n else fs_lookup fs p)"
  by (auto simp: fs_lookup_def update_conv')

lemma children_update:
  assumes "q \<noteq> []"
  shows "last q \<in> set (children (AList.update q n fs) (butlast q))"
proof -
  have "q \<in> fst ` set (AList.update q n fs)" by (simp add: dom_update)
  then have "q \<in> set (map fst (AList.update q n fs))" by (simp only: set_map)
  with assms have "q \<in> {k \<in> set (map fst (AList.update q n fs)). k \<noteq> [] \<and> butlast k = butlast q}"
    by blast
  then have "last q \<in> last ` {k \<in> set (map fst (AList.update q n fs)). k \<noteq> [] \<and> butlast k = butlast q}"
    by (rule imageI)
  then show ?thesis unfolding children_def by (simp only: set_map set_filter)
qed

lemma pipeTo_file_cases:
  "pipeTo_file env fs resp p = (r, fs2) \<Longrightarrow>
     fs2 = fs \<and> (\<exists>e. r = Inl e) \<or>
     (fs_path p \<noteq> [] \<and> fs_lookup fs (fs_path p) \<noteq> Some Dir \<and>
      fs_lookup fs (butlast (fs_path p)) = Some Dir \<and>
      fs2 = AList.update (fs_path p) (File (body resp)) fs \<and>
      (r = Inr () \<longleftrightarrow> stream_error resp = None))"
  by (auto simp: pipeTo_file_def Let_def split: option.splits if_splits node.splits)

lemma pipeTo_file_keeps:
  assumes "pipeTo_file env fs resp p = (r, fs2)" "fs_lookup fs q = Some n" "q \<noteq> fs_path p"
  shows "fs_lookup fs2 q = Some n"
  using pipeTo_file_cases[OF assms(1)] assms(2,3) by (auto simp: lookup_update)

lemma pipeTo_file_keeps_dirs:
  assumes "pipeTo_file env fs resp p = (r, fs2)" "fs_lookup fs q = Some Dir"
  shows "fs_lookup fs2 q = Some Dir"
  using pipeTo_file_cases[OF assms(1)] assms(2) by (auto simp: lookup_update)

section \<open>Properties of installLang\<close>

lemma fs_mkdir_keeps:
  "fs_mkdir env fs p = Inr fs' \<Longrightarrow> fs_lookup fs q = Some n \<Longrightarrow> fs_lookup fs' q = Some n"
  by (auto simp: fs_mkdir_def split: option.splits intro: mkdir_from_keeps)

lemma installLang_requests:
  "requests (snd (installLang cfg env lang w))
     = requests w @ [(download_url cfg lang, downloadTimeout cfg)]"
  by (simp add: installLang_def Let_def download_url_def split: sum.splits prod.splits)

lemma installLang_workers: "workers (snd (installLang cfg env lang w)) = workers w"
  by (simp add: installLang_def Let_def split: sum.splits prod.splits)

lemma installLang_keeps:
  assumes "fs_lookup (files w) q = Some n" "q \<noteq> dest_path cfg env lang"
  shows "fs_lookup (files (snd (installLang cfg env lang w))) q = Some n"
  using assms
  by (auto simp: installLang_def Let_def dest_path_def gzipFilePath_def split: sum.splits prod.splits
      dest!: pipeTo_file_keeps[where q = q and n = n] fs_mkdir_keeps[where q = q and n = n])

lemma installLang_success:
  assumes "fst (installLang cfg env lang w) = Inr ()"
  obtains resp fs1 where
    "http_get env (download_url cfg lang) (downloadTimeout cfg) = Inr resp"
    "fs_mkdir env (files w) (get_langPath cfg env) = Inr fs1"
    "dest_path cfg env lang \<noteq> []"
    "fs_lookup fs1 (butlast (dest_path cfg env lang)) = Some Dir"
    "files (snd (installLang cfg env lang w))
       = AList.update (dest_path cfg env lang) (File (body resp)) fs1"
    "\<forall>p. fs_lookup fs1 p = Some Dir \<longrightarrow> fs_lookup (files (snd (installLang cfg env lang w))) p = Some Dir"
proof -
  from assms obtain resp where h: "http_get env (download_url cfg lang) (downloadTimeout cfg) = Inr resp"
    by (auto simp: installLang_def Let_def download_url_def split: sum.splits prod.splits)
  from assms h obtain fs1 where m: "fs_mkdir env (files w) (get_langPath cfg env) = Inr fs1"
    by (auto simp: installLang_def Let_def download_url_def split: sum.splits prod.splits)
  obtain r fs2 where p: "pipeTo_file env fs1 resp
      (path_resolve (process_cwd env) [get_langPath cfg env, lang @ ''.traineddata.gz'']) = (r, fs2)"
    by (cases "pipeTo_file env fs1 resp
      (path_resolve (process_cwd env) [get_langPath cfg env, lang @ ''.traineddata.gz''])") auto
  from assms h m p have r: "r = Inr ()" and f: "files (snd (installLang cfg env lang w)) = fs2"
    by (auto simp: installLang_def Let_def download_url_def split: sum.splits)
  from pipeTo_file_cases[OF p] r have c: "dest_path cfg env lang \<noteq> []"
      "fs_lookup fs1 (dest_path cfg env lang) \<noteq> Some Dir"
      "fs_lookup fs1 (butlast (dest_path cfg env lang)) = Some Dir"
      "fs2 = AList.update (dest_path cfg env lang) (File (body resp)) fs1"
    by (auto simp: dest_path_def gzipFilePath_def)
  have "\<forall>p. fs_lookup fs1 p = Some Dir \<longrightarrow> fs_lookup (files (snd (installLang cfg env lang w))) p = Some Dir"
    unfolding f using pipeTo_file_keeps_dirs[OF p] by blast
  with h m c f that show ?thesis by blast
qed

section \<open>The download URL\<close>

lemma expand_repl_plain: "CHR ''$'' \<notin> set r \<Longrightarrow> expand_repl m pre post r = r"
  by (induction m pre post r rule: expand_repl.induct) auto

lemma replace_from_subst:
  "CHR ''$'' \<notin> set repl \<Longrightarrow> replace_from p ps repl pre s = subst_from p ps repl s"
  by (induction p ps repl pre s rule: replace_from.induct) (simp_all add: expand_repl_plain)

lemma download_url_spec:
  assumes "CHR ''$'' \<notin> set lang"
  shows "download_url cfg lang = spec_url (source cfg) lang"
proof -
  have n: "CHR ''$'' \<notin> set (lang @ ''.traineddata.gz'')" using assms by simp
  have 1: "replace_from CHR ''{'' ''lang}'' lang [] (source cfg)
      = subst_from CHR ''{'' ''lang}'' lang (source cfg)"
    by (rule replace_from_subst[OF assms])
  have 2: "replace_from CHR ''{'' ''file}'' (lang @ ''.traineddata.gz'') [] s
      = subst_from CHR ''{'' ''file}'' (lang @ ''.traineddata.gz'') s" for s
    by (rule replace_from_subst[OF n])
  show ?thesis
    unfolding download_url_def spec_url_def replace_file_def replace_lang_def 1 2 ..
qed

section \<open>Installing and listing\<close>

lemma getInstalledLangs_keeps:
  "fs_lookup (files w) q = Some n \<Longrightarrow> fs_lookup (files (snd (getInstalledLangs cfg env w))) q = Some n"
  by (auto simp: getInstalledLangs_cases split: sum.splits dest: fs_mkdir_keeps)

lemma promise_all_snd:
  "snd (promise_all (t # ts) w) = snd (promise_all ts (snd (t w)))"
  by (simp split: prod.splits)

lemma promise_all_installs_requests:
  "requests (snd (promise_all (map (installLang cfg env) ls) w))
     = requests w @ map (\<lambda>l. (download_url cfg l, downloadTimeout cfg)) ls"
proof (induction ls arbitrary: w)
  case Nil
  then show ?case by simp
next
  case (Cons l ls)
  show ?case
    unfolding list.map promise_all_snd Cons.IH installLang_requests by simp
qed

lemma promise_all_installs_workers:
  "workers (snd (promise_all (map (installLang cfg env) ls) w)) = workers w"
proof (induction ls arbitrary: w)
  case Nil
  then show ?case by simp
next
  case (Cons l ls)
  show ?case
    unfolding list.map promise_all_snd Cons.IH installLang_workers ..
qed

lemma promise_all_installs_keeps:
  "fs_lookup (files w) q = Some n \<Longrightarrow> \<forall>l \<in> set ls. q \<noteq> dest_path cfg env l \<Longrightarrow>
   fs_lookup (files (snd (promise_all (map (installLang cfg env) ls) w))) q = Some n"
proof (induction ls arbitrary: w)
  case Nil
  then show ?case by simp
next
  case (Cons l ls)
  have "fs_lookup (files (snd (installLang cfg env l w))) q = Some n"
    using Cons.prems by (intro installLang_keeps) simp_all
  then have "fs_lookup (files (snd (promise_all (map (installLang cfg env) ls)
      (snd (installLang cfg env l w))))) q = Some n"
    using Cons.prems by (intro Cons.IH) simp_all
  then show ?case unfolding list.map promise_all_snd .
qed

lemma installNecessaryLangs_world:
  assumes "getInstalledLangs cfg env w = (Inr installed, w1)"
  shows "snd (installNecessaryLangs cfg env langs w)
     = snd (promise_all (map (installLang cfg env) (filter (\<lambda>l. l \<notin> set installed) langs)) w1)"
  using assms
  by (simp add: installNecessaryLangs_def js_includes_def split: prod.splits sum.splits)

section \<open>Evaluation of installLang on the examples\<close>

lemma installLang_unfold:
  "installLang cfg env lang w =
     (case http_get env (download_url cfg lang) (downloadTimeout cfg) of
        Inl err \<Rightarrow>
          (Inl err,
           w\<lparr>logged := logged w @ [LogDownloading (download_url cfg lang) (gzipFilePath cfg env lang)],
              requests := requests w @ [(download_url cfg lang, downloadTimeout cfg)]\<rparr>)
      | Inr resp \<Rightarrow>
          (case fs_mkdir env (files w) (get_langPath cfg env) of
             Inl err \<Rightarrow>
               (Inl err,
                w\<lparr>logged := logged w @ [LogDownloading (download_url cfg lang) (gzipFilePath cfg env lang)],
                   requests := requests w @ [(download_url cfg lang, downloadTimeout cfg)]\<rparr>)
           | Inr fs1 \<Rightarrow>
               (case pipeTo_file env fs1 resp (gzipFilePath cfg env lang) of
                  (Inl err, fs2) \<Rightarrow>
                    (Inl err,
                     w\<lparr>logged := logged w @ [LogDownloading (download_url cfg lang) (gzipFilePath cfg env lang)],
                        requests := requests w @ [(download_url cfg lang, downloadTimeout cfg)],
                        files := fs2\<rparr>)
                | (Inr u, fs2) \<Rightarrow>
                    (Inr (),
                     w\<lparr>logged := logged w @ [LogDownloading (download_url cfg lang) (gzipFilePath cfg env lang),
                                               LogInstalled],
                        requests := requests w @ [(download_url cfg lang, downloadTimeout cfg)],
                        files := fs2\<rparr>))))"
  by (simp add: installLang_def download_url_def gzipFilePath_def Let_def
      split: sum.splits prod.splits)

lemma ex_cwd [simp]: "process_cwd ex_env = ''/srv''" "process_cwd ex_env_updated = ''/srv''"
  by (simp_all add: process_cwd_def ex_env_def ex_env_updated_def)

lemma ex_gzip [simp]:
  "gzipFilePath ex_cfg ex_env ''eng'' = ''/srv/bot/data/tesseract/eng.traineddata.gz''"
  "gzipFilePath ex_cfg ex_env_updated ''eng'' = ''/srv/bot/data/tesseract/eng.traineddata.gz''"
  "gzipFilePath ex_cfg ex_env ''fra'' = ''/srv/bot/data/tesseract/fra.traineddata.gz''"
  "gzipFilePath ex_cfg ex_env ''../eng'' = ''/srv/bot/data/eng.traineddata.gz''"
  "gzipFilePath ex_cfg ex_env ''./eng'' = ''/srv/bot/data/tesseract/eng.traineddata.gz''"
  "gzipFilePath ex_cfg ex_env ''/tmp/x'' = ''/tmp/x.traineddata.gz''"
  by (simp_all add: gzipFilePath_def path_resolve_def normalizeString_def norm_segs_def)

lemma ex_paths [simp]:
  "fs_path ''/srv/bot/data/tesseract/eng.traineddata.gz''
     = [''srv'', ''bot'', ''data'', ''tesseract'', ''eng.traineddata.gz'']"
  "fs_path ''/srv/bot/data/tesseract/fra.traineddata.gz''
     = [''srv'', ''bot'', ''data'', ''tesseract'', ''fra.traineddata.gz'']"
  "fs_path ''/srv/bot/data/eng.traineddata.gz'' = [''srv'', ''bot'', ''data'', ''eng.traineddata.gz'']"
  "fs_path ''/tmp/x.traineddata.gz'' = [''tmp'', ''x.traineddata.gz'']"
  by (simp_all add: fs_path_def norm_segs_def)

lemma ex_url:
  "download_url ex_cfg ''eng''
     = ''https://unpkg.com/@tesseract.js-data/eng/4.0.0_best_int/eng.traineddata.gz''"
  "download_url ex_cfg ''fra''
     = ''https://unpkg.com/@tesseract.js-data/fra/4.0.0_best_int/fra.traineddata.gz''"
  "download_url ex_cfg ''$&''
     = ''https://unpkg.com/@tesseract.js-data/{lang}/4.0.0_best_int/{file}.traineddata.gz''"
  by (simp_all add: download_url_def replace_file_def replace_lang_def ex_cfg_def)

lemma ex_spec_url:
  "spec_url (source ex_cfg) ''$&''
     = ''https://unpkg.com/@tesseract.js-data/$&/4.0.0_best_int/$&.traineddata.gz''"
  by (simp add: spec_url_def ex_cfg_def)

lemma ex_mkdir_empty [simp]:
  "fs_mkdir ex_env [] ''/srv/bot/data/tesseract''
     = Inr [([''srv''], Dir), ([''srv'', ''bot''], Dir), ([''srv'', ''bot'', ''data''], Dir),
            ([''srv'', ''bot'', ''data'', ''tesseract''], Dir)]"
  by (simp add: fs_mkdir_def fs_lookup_def)

lemma ex_install_eng:
  "fst (installLang ex_cfg ex_env ''eng'' ex_world_empty) = Inr ()"
  "files (snd (installLang ex_cfg ex_env ''eng'' ex_world_empty))
     = ex_dirs @ [([''srv'', ''bot'', ''data'', ''tesseract'', ''eng.traineddata.gz''],
                  File (''data of '' @ download_url ex_cfg ''eng''))]"
  by (simp_all add: installLang_unfold ex_http_def pipeTo_file_def fs_lookup_def ex_dirs_def)

lemma ex_install_up:
  "fst (installLang ex_cfg ex_env ''../eng'' ex_world_empty) = Inr ()"
  "files (snd (installLang ex_cfg ex_env ''../eng'' ex_world_empty))
     = ex_dirs @ [([''srv'', ''bot'', ''data'', ''eng.traineddata.gz''],
                  File (''data of '' @ download_url ex_cfg ''../eng''))]"
  by (simp_all add: installLang_unfold ex_http_def pipeTo_file_def fs_lookup_def ex_dirs_def)

lemma ex_pipe_tmp:
  "pipeTo_file ex_env ex_files \<lparr>body = b, stream_error = None\<rparr> ''/tmp/x.traineddata.gz''
     = (Inr (), ex_files @ [([''tmp'', ''x.traineddata.gz''], File b)])"
  by (simp add: pipeTo_file_def fs_lookup_def ex_files_def)

lemma ex_install_tmp_files:
  "installLang ex_cfg ex_env ''/tmp/x'' ex_world =
     (Inr (),
      ex_world\<lparr>logged := [LogDownloading (download_url ex_cfg ''/tmp/x'') ''/tmp/x.traineddata.gz'',
                          LogInstalled],
                requests := [(download_url ex_cfg ''/tmp/x'', downloadTimeout ex_cfg)],
                files := ex_files @ [([''tmp'', ''x.traineddata.gz''],
                                      File (''data of '' @ download_url ex_cfg ''/tmp/x''))]\<rparr>)"
  by (simp add: installLang_unfold ex_http_def ex_pipe_tmp)

lemma ex_install_tmp:
  "fst (installLang ex_cfg ex_env ''/tmp/x'' ex_world) = Inr ()"
  "fs_lookup (files (snd (installLang ex_cfg ex_env ''/tmp/x'' ex_world))) [''tmp'', ''x.traineddata.gz'']
     = Some (File (''data of '' @ download_url ex_cfg ''/tmp/x''))"
  "fs_lookup (files (snd (installLang ex_cfg ex_env ''/tmp/x'' ex_world)))
     [''srv'', ''bot'', ''data'', ''tesseract'', ''tmp'', ''x.traineddata.gz''] = None"
  by (simp_all add: ex_install_tmp_files fs_lookup_def ex_files_def)

lemma ex_timeout [simp]: "downloadTimeout ex_cfg = 30000"
  by (simp add: ex_cfg_def)

lemma ex_asset [simp]:
  "fs_lookup ex_files [''srv'', ''bot'', ''data'', ''tesseract'', ''eng.traineddata.gz'']
     = Some (File ''ENG'')"
  by (simp add: fs_lookup_def ex_files_def)

lemma ex_listing_after_up:
  "fst (getInstalledLangs ex_cfg ex_env (snd (installLang ex_cfg ex_env ''../eng'' ex_world_empty)))
     = Inr []"
  by (simp add: getInstalledLangs_cases ex_install_up fs_mkdir_def fs_readdir_def fs_lookup_def
      children_def ex_dirs_def)

lemma ex_pipe_eng:
  "pipeTo_file ex_env ex_files \<lparr>body = b, stream_error = None\<rparr>
      ''/srv/bot/data/tesseract/eng.traineddata.gz''
     = (Inr (), AList.update [''srv'', ''bot'', ''data'', ''tesseract'', ''eng.traineddata.gz'']
                  (File b) ex_files)"
  by (simp add: pipeTo_file_def fs_lookup_def ex_files_def Let_def)

lemma ex_install_dot:
  "files (snd (installLang ex_cfg ex_env ''./eng'' ex_world))
     = AList.update [''srv'', ''bot'', ''data'', ''tesseract'', ''eng.traineddata.gz'']
         (File (''data of '' @ download_url ex_cfg ''./eng'')) ex_files"
  by (simp add: installLang_unfold ex_http_def ex_pipe_eng)

lemma ex_spec_url_eng:
  "spec_url (source ex_cfg) ''eng''
     = ''https://unpkg.com/@tesseract.js-data/eng/4.0.0_best_int/eng.traineddata.gz''"
  by (simp add: spec_url_def ex_cfg_def)

text \<open>
  C3, amended. For every language code without a slash: after a successful
  \<open>installLang\<close>, a following \<open>getInstalledLangs\<close> whose listing of the asset root does not
  fail contains the code.
\<close>

theorem install_then_listed:
  assumes "CHR ''/'' \<notin> set lang"
    and "fst (installLang cfg env lang w) = Inr ()"
    and "io_fault env (OpReaddir (fs_path (get_langPath cfg env))) = None"
  shows "\<exists>langs. fst (getInstalledLangs cfg env (snd (installLang cfg env lang w))) = Inr langs
           \<and> lang \<in> set langs"
proof -
  let ?w = "snd (installLang cfg env lang w)"
  let ?root = "fs_path (get_langPath cfg env)"
  let ?name = "lang @ ''.traineddata.gz''"
  from assms(2) obtain resp fs1 where
    h: "http_get env (download_url cfg lang) (downloadTimeout cfg) = Inr resp"
    and mk: "fs_mkdir env (files w) (get_langPath cfg env) = Inr fs1"
    and ne: "dest_path cfg env lang \<noteq> []"
    and par: "fs_lookup fs1 (butlast (dest_path cfg env lang)) = Some Dir"
    and fl: "files ?w = AList.update (dest_path cfg env lang) (File (body resp)) fs1"
    and dirs: "\<forall>p. fs_lookup fs1 p = Some Dir \<longrightarrow> fs_lookup (files ?w) p = Some Dir"
    by (rule installLang_success)
  have d: "dest_path cfg env lang = ?root @ [?name]"
    unfolding dest_path_def gzipFilePath_def by (rule dest_child[OF assms(1)])
  from mk have nf: "io_fault env (OpMkdir ?root) = None"
    and m: "mkdir_from (files w) [] ?root = Inr fs1"
    by (auto simp: fs_mkdir_def split: option.splits)
  have de: "dirs_exist (files ?w) [] ?root"
    using mkdir_from_dirs[OF m] dirs by (rule dirs_exist_mono)
  have mk2: "fs_mkdir env (files ?w) (get_langPath cfg env) = Inr (files ?w)"
    using nf mkdir_from_again[OF de] by (simp add: fs_mkdir_def)
  have "fs_lookup (files ?w) ([] @ ?root) = Some Dir"
    using de by (rule dirs_exist_last) (simp add: fs_lookup_def)
  then have rd: "fs_readdir env (files ?w) (get_langPath cfg env) = Inr (children (files ?w) ?root)"
    using assms(3) by (simp add: fs_readdir_def)
  have "last (?root @ [?name]) \<in> set (children (AList.update (?root @ [?name]) (File (body resp)) fs1)
           (butlast (?root @ [?name])))"
    by (rule children_update) simp
  then have mem: "?name \<in> set (children (files ?w) ?root)"
    unfolding fl d by simp
  have "fst (getInstalledLangs cfg env ?w)
      = Inr (map (\<lambda>s. take (length s - 15) s)
          (filter (suffix ''.traineddata.gz'') (children (files ?w) ?root)))"
    by (simp add: getInstalledLangs_cases mk2 rd)
  moreover have "lang \<in> set (map (\<lambda>s. take (length s - 15) s)
          (filter (suffix ''.traineddata.gz'') (children (files ?w) ?root)))"
    unfolding strip_suffixed_set using mem by simp
  ultimately show ?thesis by blast
qed

theorem install_then_listed_witness:
  "CHR ''/'' \<notin> set ''eng'' \<and>
   fst (installLang ex_cfg ex_env ''eng'' ex_world_empty) = Inr () \<and>
   io_fault ex_env (OpReaddir (fs_path (get_langPath ex_cfg ex_env))) = None \<and>
   (\<exists>langs. fst (getInstalledLangs ex_cfg ex_env
                    (snd (installLang ex_cfg ex_env ''eng'' ex_world_empty))) = Inr langs
            \<and> ''eng'' \<in> set langs)"
proof -
  have h1: "CHR ''/'' \<notin> set ''eng''" by simp
  have h2: "fst (installLang ex_cfg ex_env ''eng'' ex_world_empty) = Inr ()"
    by (rule ex_install_eng(1))
  have h3: "io_fault ex_env (OpReaddir (fs_path (get_langPath ex_cfg ex_env))) = None" by simp
  from install_then_listed[OF h1 h2 h3] h1 h2 h3 show ?thesis by blast
qed

theorem install_outside_root_counterexample:
  "fst (installLang ex_cfg ex_env ''../eng'' ex_world_empty) = Inr () \<and>
   fs_lookup (files (snd (installLang ex_cfg ex_env ''../eng'' ex_world_empty)))
      [''srv'', ''bot'', ''data'', ''eng.traineddata.gz'']
     = Some (File (''data of '' @ download_url ex_cfg ''../eng'')) \<and>
   fst (getInstalledLangs ex_cfg ex_env (snd (installLang ex_cfg ex_env ''../eng'' ex_world_empty)))
     = Inr []"
  by (simp add: ex_install_up ex_listing_after_up fs_lookup_def ex_dirs_def)

text \<open>
  C5, amended. \<open>installNecessaryLangs\<close> issues one download for each element of \<open>langs\<close>
  that \<open>getInstalledLangs\<close> does not return in the state of the call, in the order of
  \<open>langs\<close>, and no other download. When no code of \<open>langs\<close> contains a slash, the asset
  file of every installed code has the content it had.
\<close>

theorem installNecessaryLangs_installs_missing:
  "\<exists>installed. fst (getInstalledLangs cfg env w) = Inr installed \<and>
     requests (snd (installNecessaryLangs cfg env langs w))
       = requests w @ map (\<lambda>l. (download_url cfg l, downloadTimeout cfg))
                        (filter (\<lambda>l. l \<notin> set installed) langs) \<and>
     ((\<forall>l \<in> set langs. CHR ''/'' \<notin> set l) \<longrightarrow>
        (\<forall>a c. a \<in> set installed \<and>
           fs_lookup (files w) (fs_path (get_langPath cfg env) @ [a @ ''.traineddata.gz''])
             = Some (File c) \<longrightarrow>
           fs_lookup (files (snd (installNecessaryLangs cfg env langs w)))
              (fs_path (get_langPath cfg env) @ [a @ ''.traineddata.gz'']) = Some (File c)))"
proof -
  obtain installed w1 where g: "getInstalledLangs cfg env w = (Inr installed, w1)"
    by (rule getInstalledLangs_result)
  let ?missing = "filter (\<lambda>l. l \<notin> set installed) langs"
  let ?root = "fs_path (get_langPath cfg env)"
  have w1: "requests w1 = requests w"
    using getInstalledLangs_frame(2)[of cfg env w] g by simp
  have r: "requests (snd (installNecessaryLangs cfg env langs w))
       = requests w @ map (\<lambda>l. (download_url cfg l, downloadTimeout cfg)) ?missing"
    unfolding installNecessaryLangs_world[OF g] promise_all_installs_requests w1 ..
  have f: "fs_lookup (files (snd (installNecessaryLangs cfg env langs w)))
              (?root @ [a @ ''.traineddata.gz'']) = Some (File c)"
    if sl: "\<forall>l \<in> set langs. CHR ''/'' \<notin> set l" and a: "a \<in> set installed"
      and c: "fs_lookup (files w) (?root @ [a @ ''.traineddata.gz'']) = Some (File c)" for a c
  proof -
    have k: "fs_lookup (files w1) (?root @ [a @ ''.traineddata.gz'']) = Some (File c)"
      using getInstalledLangs_keeps[OF c, of cfg env] g by simp
    have "\<forall>l \<in> set ?missing. ?root @ [a @ ''.traineddata.gz''] \<noteq> dest_path cfg env l"
    proof
      fix l assume l: "l \<in> set ?missing"
      then have "CHR ''/'' \<notin> set l" and "l \<noteq> a" using sl a by auto
      then show "?root @ [a @ ''.traineddata.gz''] \<noteq> dest_path cfg env l"
        unfolding dest_path_def gzipFilePath_def by (simp add: dest_child)
    qed
    with k show ?thesis
      unfolding installNecessaryLangs_world[OF g] by (rule promise_all_installs_keeps)
  qed
  from g r f show ?thesis by auto
qed

theorem installNecessaryLangs_installs_missing_witness:
  "requests (snd (installNecessaryLangs ex_cfg ex_env [''eng'', ''fra''] ex_world))
     = [(download_url ex_cfg ''fra'', downloadTimeout ex_cfg)] \<and>
   fs_lookup (files ex_world) [''srv'', ''bot'', ''data'', ''tesseract'', ''eng.traineddata.gz'']
     = Some (File ''ENG'') \<and>
   fs_lookup (files (snd (installNecessaryLangs ex_cfg ex_env [''eng'', ''fra''] ex_world)))
      [''srv'', ''bot'', ''data'', ''tesseract'', ''eng.traineddata.gz''] = Some (File ''ENG'')"
proof -
  from installNecessaryLangs_installs_missing[of ex_cfg ex_env ex_world "[''eng'', ''fra'']"]
  obtain installed where i: "fst (getInstalledLangs ex_cfg ex_env ex_world) = Inr installed"
    and r: "requests (snd (installNecessaryLangs ex_cfg ex_env [''eng'', ''fra''] ex_world))
       = requests ex_world @ map (\<lambda>l. (download_url ex_cfg l, downloadTimeout ex_cfg))
                        (filter (\<lambda>l. l \<notin> set installed) [''eng'', ''fra''])"
    and f: "(\<forall>l \<in> set [''eng'', ''fra'']. CHR ''/'' \<notin> set l) \<longrightarrow>
        (\<forall>a c. a \<in> set installed \<and>
           fs_lookup (files ex_world) (fs_path (get_langPath ex_cfg ex_env) @ [a @ ''.traineddata.gz''])
             = Some (File c) \<longrightarrow>
           fs_lookup (files (snd (installNecessaryLangs ex_cfg ex_env [''eng'', ''fra''] ex_world)))
              (fs_path (get_langPath ex_cfg ex_env) @ [a @ ''.traineddata.gz'']) = Some (File c))"
    by blast
  from i have inst: "installed = [''eng'']" by simp
  have a: "fs_lookup (files ex_world) [''srv'', ''bot'', ''data'', ''tesseract'', ''eng.traineddata.gz'']
     = Some (File ''ENG'')" by simp
  have sl: "\<forall>l \<in> set [''eng'', ''fra'']. CHR ''/'' \<notin> set l" by simp
  from f sl have "fs_lookup (files ex_world)
        (fs_path (get_langPath ex_cfg ex_env) @ [''eng'' @ ''.traineddata.gz'']) = Some (File ''ENG'') \<longrightarrow>
      fs_lookup (files (snd (installNecessaryLangs ex_cfg ex_env [''eng'', ''fra''] ex_world)))
        (fs_path (get_langPath ex_cfg ex_env) @ [''eng'' @ ''.traineddata.gz'']) = Some (File ''ENG'')"
    unfolding inst by simp
  with a have k: "fs_lookup (files (snd (installNecessaryLangs ex_cfg ex_env [''eng'', ''fra''] ex_world)))
      [''srv'', ''bot'', ''data'', ''tesseract'', ''eng.traineddata.gz''] = Some (File ''ENG'')"
    by simp
  from r have "requests (snd (installNecessaryLangs ex_cfg ex_env [''eng'', ''fra''] ex_world))
     = [(download_url ex_cfg ''fra'', downloadTimeout ex_cfg)]"
    unfolding inst by simp
  with a k show ?thesis by blast
qed

theorem installNecessaryLangs_overwrites_counterexample:
  "fst (getInstalledLangs ex_cfg ex_env ex_world) = Inr [''eng''] \<and>
   fs_lookup (files ex_world) [''srv'', ''bot'', ''data'', ''tesseract'', ''eng.traineddata.gz'']
     = Some (File ''ENG'') \<and>
   fs_lookup (files (snd (installNecessaryLangs ex_cfg ex_env [''eng'', ''./eng''] ex_world)))
      [''srv'', ''bot'', ''data'', ''tesseract'', ''eng.traineddata.gz'']
     = Some (File (''data of '' @ download_url ex_cfg ''./eng'')) \<and>
   ''data of '' @ download_url ex_cfg ''./eng'' \<noteq> ''ENG''"
proof -
  have "snd (installNecessaryLangs ex_cfg ex_env [''eng'', ''./eng''] ex_world)
      = snd (installLang ex_cfg ex_env ''./eng'' ex_world)"
    unfolding installNecessaryLangs_world[OF ex_installed] by (simp split: prod.splits)
  then show ?thesis by (simp add: ex_install_dot lookup_update)
qed

text \<open>
  C6, amended. For every language code without a dollar sign that does not begin with a
  slash, \<open>installLang\<close> requests the URL that the template gives when every \<open>{lang}\<close> is
  replaced by the code and then every \<open>{file}\<close> by the code followed by \<open>.traineddata.gz\<close>,
  with the configured timeout; when it succeeds, the file that the path
  \<open>asset root/code.traineddata.gz\<close> denotes holds the body of the response.
\<close>

theorem installLang_url_and_destination:
  assumes "CHR ''$'' \<notin> set lang" and "\<not> isAbsolute lang"
  shows "requests (snd (installLang cfg env lang w))
       = requests w @ [(spec_url (source cfg) lang, downloadTimeout cfg)] \<and>
     (fst (installLang cfg env lang w) = Inr () \<longrightarrow>
        (\<exists>resp. http_get env (spec_url (source cfg) lang) (downloadTimeout cfg) = Inr resp \<and>
           fs_lookup (files (snd (installLang cfg env lang w)))
             (fs_path (get_langPath cfg env @ ''/'' @ lang @ ''.traineddata.gz''))
             = Some (File (body resp))))"
proof -
  let ?name = "lang @ ''.traineddata.gz''"
  have u: "download_url cfg lang = spec_url (source cfg) lang"
    by (rule download_url_spec[OF assms(1)])
  have na: "\<not> isAbsolute ?name" using assms(2) by (cases lang) (auto simp: isAbsolute_iff)
  have d: "dest_path cfg env lang = fs_path (get_langPath cfg env @ ''/'' @ ?name)"
    unfolding dest_path_def gzipFilePath_def by (rule dest_relative) (use na in simp_all)
  have s: "\<exists>resp. http_get env (spec_url (source cfg) lang) (downloadTimeout cfg) = Inr resp \<and>
           fs_lookup (files (snd (installLang cfg env lang w)))
             (fs_path (get_langPath cfg env @ ''/'' @ ?name)) = Some (File (body resp))"
    if ok: "fst (installLang cfg env lang w) = Inr ()"
  proof -
    from ok obtain resp fs1 where
      h: "http_get env (download_url cfg lang) (downloadTimeout cfg) = Inr resp"
      and mk: "fs_mkdir env (files w) (get_langPath cfg env) = Inr fs1"
      and ne: "dest_path cfg env lang \<noteq> []"
      and par: "fs_lookup fs1 (butlast (dest_path cfg env lang)) = Some Dir"
      and fl: "files (snd (installLang cfg env lang w))
         = AList.update (dest_path cfg env lang) (File (body resp)) fs1"
      and dirs: "\<forall>p. fs_lookup fs1 p = Some Dir \<longrightarrow>
         fs_lookup (files (snd (installLang cfg env lang w))) p = Some Dir"
      by (rule installLang_success)
    have "fs_lookup (files (snd (installLang cfg env lang w))) (dest_path cfg env lang)
        = Some (File (body resp))"
      unfolding fl using ne by (simp add: lookup_update)
    with h show ?thesis unfolding u d by blast
  qed
  show ?thesis using installLang_requests[of cfg env lang w] s unfolding u by blast
qed

theorem installLang_url_and_destination_witness:
  "CHR ''$'' \<notin> set ''eng'' \<and> \<not> isAbsolute ''eng'' \<and>
   fst (installLang ex_cfg ex_env ''eng'' ex_world_empty) = Inr () \<and>
   requests (snd (installLang ex_cfg ex_env ''eng'' ex_world_empty))
     = [(''https://unpkg.com/@tesseract.js-data/eng/4.0.0_best_int/eng.traineddata.gz'', 30000)] \<and>
   (\<exists>resp. http_get ex_env (spec_url (source ex_cfg) ''eng'') (downloadTimeout ex_cfg) = Inr resp \<and>
      fs_lookup (files (snd (installLang ex_cfg ex_env ''eng'' ex_world_empty)))
        (fs_path (get_langPath ex_cfg ex_env @ ''/'' @ ''eng'' @ ''.traineddata.gz''))
        = Some (File (body resp)))"
proof -
  have h1: "CHR ''$'' \<notin> set ''eng''" by simp
  have h2: "\<not> isAbsolute ''eng''" by (simp add: isAbsolute_def)
  have ok: "fst (installLang ex_cfg ex_env ''eng'' ex_world_empty) = Inr ()"
    by (rule ex_install_eng(1))
  from installLang_url_and_destination[OF h1 h2, of ex_cfg ex_env ex_world_empty] ok
  have "requests (snd (installLang ex_cfg ex_env ''eng'' ex_world_empty))
       = requests ex_world_empty @ [(spec_url (source ex_cfg) ''eng'', downloadTimeout ex_cfg)]"
    and e: "\<exists>resp. http_get ex_env (spec_url (source ex_cfg) ''eng'') (downloadTimeout ex_cfg) = Inr resp \<and>
      fs_lookup (files (snd (installLang ex_cfg ex_env ''eng'' ex_world_empty)))
        (fs_path (get_langPath ex_cfg ex_env @ ''/'' @ ''eng'' @ ''.traineddata.gz''))
        = Some (File (body resp))"
    by blast+
  then have "requests (snd (installLang ex_cfg ex_env ''eng'' ex_world_empty))
     = [(''https://unpkg.com/@tesseract.js-data/eng/4.0.0_best_int/eng.traineddata.gz'', 30000)]"
    by (simp add: ex_spec_url_eng)
  with h1 h2 ok e show ?thesis by blast
qed

theorem installLang_url_and_destination_counterexample:
  "requests (snd (installLang ex_cfg ex_env ''$&'' ex_world_empty))
     = [(''https://unpkg.com/@tesseract.js-data/{lang}/4.0.0_best_int/{file}.traineddata.gz'', 30000)] \<and>
   spec_url (source ex_cfg) ''$&''
     = ''https://unpkg.com/@tesseract.js-data/$&/4.0.0_best_int/$&.traineddata.gz'' \<and>
   fst (installLang ex_cfg ex_env ''/tmp/x'' ex_world) = Inr () \<and>
   fs_lookup (files (snd (installLang ex_cfg ex_env ''/tmp/x'' ex_world)))
      (fs_path (get_langPath ex_cfg ex_env @ ''/'' @ ''/tmp/x'' @ ''.traineddata.gz'')) = None \<and>
   fs_lookup (files (snd (installLang ex_cfg ex_env ''/tmp/x'' ex_world)))
      [''tmp'', ''x.traineddata.gz'']
     = Some (File (''data of '' @ download_url ex_cfg ''/tmp/x''))"
proof -
  have p: "fs_path (get_langPath ex_cfg ex_env @ ''/'' @ ''/tmp/x'' @ ''.traineddata.gz'')
      = [''srv'', ''bot'', ''data'', ''tesseract'', ''tmp'', ''x.traineddata.gz'']"
    by (simp add: fs_path_def norm_segs_def)
  show ?thesis
    unfolding p by (simp add: installLang_requests ex_url ex_spec_url ex_install_tmp)
qed

lemma createWorker_files:
  "files (snd (createWorker cfg env langs options w)) = files (snd (getInstalledLangs cfg env w))"
proof -
  obtain installed w1 where g: "getInstalledLangs cfg env w = (Inr installed, w1)"
    by (rule getInstalledLangs_result)
  show ?thesis by (simp add: createWorker_cases[OF g] g)
qed

lemma recognize_worker_keeps:
  assumes "fs_lookup (files w) q = Some n"
  shows "fs_lookup (files (snd (recognize_worker cfg env ol w))) q = Some n"
proof -
  have a: "fs_lookup (files (snd (createWorker cfg env ls Map.empty v))) q = Some n"
    if "fs_lookup (files v) q = Some n" for ls v
    unfolding createWorker_files using that by (rule getInstalledLangs_keeps)
  obtain installed w1 where g: "getInstalledLangs cfg env w = (Inr installed, w1)"
    by (rule getInstalledLangs_result)
  have k: "fs_lookup (files w1) q = Some n"
    using getInstalledLangs_keeps[OF assms, of cfg env] g by simp
  show ?thesis
    using a[OF assms] a[OF k]
    by (auto simp: recognize_worker_def g split: option.splits list.splits)
qed

lemma pipeTo_file_stays_file:
  assumes "pipeTo_file env fs resp p = (r, fs2)" "fs_lookup fs q = Some (File c)"
  shows "\<exists>c'. fs_lookup fs2 q = Some (File c')"
  using pipeTo_file_cases[OF assms(1)] assms(2) by (auto simp: lookup_update)

lemma installLang_stays_file:
  assumes "fs_lookup (files w) q = Some (File c)"
  shows "\<exists>c'. fs_lookup (files (snd (installLang cfg env lang w))) q = Some (File c')"
proof (cases "http_get env (download_url cfg lang) (downloadTimeout cfg)")
  case (Inl e)
  then show ?thesis using assms by (simp add: installLang_unfold)
next
  case (Inr resp)
  show ?thesis
  proof (cases "fs_mkdir env (files w) (get_langPath cfg env)")
    case (Inl e)
    then show ?thesis using Inr assms by (simp add: installLang_unfold)
  next
    case mk: (Inr fs1)
    have k: "fs_lookup fs1 q = Some (File c)" by (rule fs_mkdir_keeps[OF mk assms])
    obtain r fs2 where p: "pipeTo_file env fs1 resp (gzipFilePath cfg env lang) = (r, fs2)"
      by (cases "pipeTo_file env fs1 resp (gzipFilePath cfg env lang)") auto
    have f: "files (snd (installLang cfg env lang w)) = fs2"
      using Inr mk p by (cases r) (simp_all add: installLang_unfold)
    show ?thesis unfolding f by (rule pipeTo_file_stays_file[OF p k])
  qed
qed

lemma promise_all_installs_stays_file:
  "fs_lookup (files w) q = Some (File c) \<Longrightarrow>
   \<exists>c'. fs_lookup (files (snd (promise_all (map (installLang cfg env) ls) w))) q = Some (File c')"
proof (induction ls arbitrary: w c)
  case Nil
  then show ?case by simp
next
  case (Cons l ls)
  from installLang_stays_file[OF Cons.prems, of cfg env l]
  obtain c1 where "fs_lookup (files (snd (installLang cfg env l w))) q = Some (File c1)" by blast
  from Cons.IH[OF this] show ?case unfolding list.map promise_all_snd .
qed

lemma installLang_writes_body:
  assumes "fst (installLang cfg env lang w) = Inr ()"
  shows "\<exists>resp. http_get env (download_url cfg lang) (downloadTimeout cfg) = Inr resp \<and>
     fs_lookup (files (snd (installLang cfg env lang w))) (dest_path cfg env lang)
       = Some (File (body resp))"
proof -
  from assms obtain resp fs1 where
    h: "http_get env (download_url cfg lang) (downloadTimeout cfg) = Inr resp"
    and mk: "fs_mkdir env (files w) (get_langPath cfg env) = Inr fs1"
    and ne: "dest_path cfg env lang \<noteq> []"
    and par: "fs_lookup fs1 (butlast (dest_path cfg env lang)) = Some Dir"
    and fl: "files (snd (installLang cfg env lang w))
       = AList.update (dest_path cfg env lang) (File (body resp)) fs1"
    and dirs: "\<forall>p. fs_lookup fs1 p = Some Dir \<longrightarrow>
       fs_lookup (files (snd (installLang cfg env lang w))) p = Some Dir"
    by (rule installLang_success)
  have "fs_lookup (files (snd (installLang cfg env lang w))) (dest_path cfg env lang)
       = Some (File (body resp))"
    unfolding fl using ne by (simp add: lookup_update)
  with h show ?thesis by blast
qed

lemma ex_pipe_fra:
  "pipeTo_file ex_env ex_files \<lparr>body = b, stream_error = None\<rparr>
      ''/srv/bot/data/tesseract/fra.traineddata.gz''
     = (Inr (), ex_files @ [([''srv'', ''bot'', ''data'', ''tesseract'', ''fra.traineddata.gz''],
                             File b)])"
  by (simp add: pipeTo_file_def fs_lookup_def ex_files_def Let_def)

lemma ex_install_fra: "fst (installLang ex_cfg ex_env ''fra'' ex_world) = Inr ()"
  by (simp add: installLang_unfold ex_http_def ex_pipe_fra)

text \<open>
  C8, amended. No operation deletes a file: what is a file before an operation is a file
  after it. \<open>getInstalledLangs\<close>, \<open>createWorker\<close> and the recognize action leave the
  content of every file as it is. \<open>installLang\<close> leaves the content of every file as it is,
  except the file at its destination; when it succeeds, the destination holds the body of
  the response, so an asset that was there has been replaced. \<open>installNecessaryLangs\<close>
  leaves the content of every file as it is, except the destinations of the codes it
  installs: the codes of \<open>langs\<close> that \<open>getInstalledLangs\<close> does not return.
\<close>

theorem files_change_only_at_destinations:
  assumes "fs_lookup (files w) p = Some (File c)"
  shows "fs_lookup (files (snd (getInstalledLangs cfg env w))) p = Some (File c) \<and>
     fs_lookup (files (snd (createWorker cfg env langs options w))) p = Some (File c) \<and>
     fs_lookup (files (snd (recognize_worker cfg env ol w))) p = Some (File c) \<and>
     (\<exists>c'. fs_lookup (files (snd (installLang cfg env lang w))) p = Some (File c')) \<and>
     (p \<noteq> dest_path cfg env lang \<longrightarrow>
        fs_lookup (files (snd (installLang cfg env lang w))) p = Some (File c)) \<and>
     (fst (installLang cfg env lang w) = Inr () \<longrightarrow>
        (\<exists>resp. http_get env (download_url cfg lang) (downloadTimeout cfg) = Inr resp \<and>
           fs_lookup (files (snd (installLang cfg env lang w))) (dest_path cfg env lang)
             = Some (File (body resp)))) \<and>
     (\<exists>c'. fs_lookup (files (snd (installNecessaryLangs cfg env langs w))) p = Some (File c')) \<and>
     (\<exists>installed. fst (getInstalledLangs cfg env w) = Inr installed \<and>
        ((\<forall>l \<in> set langs. l \<notin> set installed \<longrightarrow> p \<noteq> dest_path cfg env l) \<longrightarrow>
           fs_lookup (files (snd (installNecessaryLangs cfg env langs w))) p = Some (File c)))"
proof -
  obtain installed w1 where g: "getInstalledLangs cfg env w = (Inr installed, w1)"
    by (rule getInstalledLangs_result)
  have 1: "fs_lookup (files (snd (getInstalledLangs cfg env w))) p = Some (File c)"
    using assms by (rule getInstalledLangs_keeps)
  have k: "fs_lookup (files w1) p = Some (File c)" using 1 g by simp
  have 2: "fs_lookup (files (snd (createWorker cfg env langs options w))) p = Some (File c)"
    unfolding createWorker_files by (rule 1)
  have 3: "fs_lookup (files (snd (recognize_worker cfg env ol w))) p = Some (File c)"
    using assms by (rule recognize_worker_keeps)
  have 4: "\<exists>c'. fs_lookup (files (snd (installLang cfg env lang w))) p = Some (File c')"
    using assms by (rule installLang_stays_file)
  have 5: "fs_lookup (files (snd (installLang cfg env lang w))) p = Some (File c)"
    if "p \<noteq> dest_path cfg env lang"
    using assms that by (rule installLang_keeps)
  have 6: "\<exists>resp. http_get env (download_url cfg lang) (downloadTimeout cfg) = Inr resp \<and>
           fs_lookup (files (snd (installLang cfg env lang w))) (dest_path cfg env lang)
             = Some (File (body resp))"
    if "fst (installLang cfg env lang w) = Inr ()"
    using that by (rule installLang_writes_body)
  have 7: "\<exists>c'. fs_lookup (files (snd (installNecessaryLangs cfg env langs w))) p = Some (File c')"
    unfolding installNecessaryLangs_world[OF g] using k by (rule promise_all_installs_stays_file)
  have 8: "fs_lookup (files (snd (installNecessaryLangs cfg env langs w))) p = Some (File c)"
    if d: "\<forall>l \<in> set langs. l \<notin> set installed \<longrightarrow> p \<noteq> dest_path cfg env l"
    unfolding installNecessaryLangs_world[OF g]
    using k by (rule promise_all_installs_keeps) (use d in auto)
  have i: "fst (getInstalledLangs cfg env w) = Inr installed" using g by simp
  from 8 i have 9: "\<exists>installed. fst (getInstalledLangs cfg env w) = Inr installed \<and>
        ((\<forall>l \<in> set langs. l \<notin> set installed \<longrightarrow> p \<noteq> dest_path cfg env l) \<longrightarrow>
           fs_lookup (files (snd (installNecessaryLangs cfg env langs w))) p = Some (File c))"
    by blast
  from 1 2 3 4 5 6 7 9 show ?thesis by blast
qed

theorem files_change_only_at_destinations_witness:
  "fs_lookup (files ex_world) [''srv'', ''bot'', ''data'', ''tesseract'', ''eng.traineddata.gz'']
     = Some (File ''ENG'') \<and>
   fs_lookup (files (snd (getInstalledLangs ex_cfg ex_env ex_world)))
      [''srv'', ''bot'', ''data'', ''tesseract'', ''eng.traineddata.gz''] = Some (File ''ENG'') \<and>
   fs_lookup (files (snd (createWorker ex_cfg ex_env [''fra''] Map.empty ex_world)))
      [''srv'', ''bot'', ''data'', ''tesseract'', ''eng.traineddata.gz''] = Some (File ''ENG'') \<and>
   fs_lookup (files (snd (recognize_worker ex_cfg ex_env None ex_world)))
      [''srv'', ''bot'', ''data'', ''tesseract'', ''eng.traineddata.gz''] = Some (File ''ENG'') \<and>
   fs_lookup (files (snd (installLang ex_cfg ex_env ''fra'' ex_world)))
      [''srv'', ''bot'', ''data'', ''tesseract'', ''eng.traineddata.gz''] = Some (File ''ENG'') \<and>
   fst (installLang ex_cfg ex_env ''fra'' ex_world) = Inr () \<and>
   (\<exists>resp. http_get ex_env (download_url ex_cfg ''fra'') (downloadTimeout ex_cfg) = Inr resp \<and>
      fs_lookup (files (snd (installLang ex_cfg ex_env ''fra'' ex_world)))
        (dest_path ex_cfg ex_env ''fra'') = Some (File (body resp))) \<and>
   fst (getInstalledLangs ex_cfg ex_env ex_world) = Inr [''eng''] \<and>
   fs_lookup (files (snd (installNecessaryLangs ex_cfg ex_env [''eng'', ''fra''] ex_world)))
      [''srv'', ''bot'', ''data'', ''tesseract'', ''eng.traineddata.gz''] = Some (File ''ENG'')"
proof -
  let ?p = "[''srv'', ''bot'', ''data'', ''tesseract'', ''eng.traineddata.gz'']"
  have h: "fs_lookup (files ex_world) ?p = Some (File ''ENG'')" by simp
  have d: "?p \<noteq> dest_path ex_cfg ex_env ''fra''" by (simp add: dest_path_def)
  have ok: "fst (installLang ex_cfg ex_env ''fra'' ex_world) = Inr ()" by (rule ex_install_fra)
  have i: "fst (getInstalledLangs ex_cfg ex_env ex_world) = Inr [''eng'']" by simp
  note t = files_change_only_at_destinations[OF h, of ex_cfg ex_env _ Map.empty None "''fra''"]
  from t[of "[''fra'']"] have a:
    "fs_lookup (files (snd (getInstalledLangs ex_cfg ex_env ex_world))) ?p = Some (File ''ENG'')"
    "fs_lookup (files (snd (createWorker ex_cfg ex_env [''fra''] Map.empty ex_world))) ?p
       = Some (File ''ENG'')"
    "fs_lookup (files (snd (recognize_worker ex_cfg ex_env None ex_world))) ?p = Some (File ''ENG'')"
    by blast+
  from t[of "[''fra'']"] d have b:
    "fs_lookup (files (snd (installLang ex_cfg ex_env ''fra'' ex_world))) ?p = Some (File ''ENG'')"
    by blast
  from t[of "[''fra'']"] ok have c:
    "\<exists>resp. http_get ex_env (download_url ex_cfg ''fra'') (downloadTimeout ex_cfg) = Inr resp \<and>
      fs_lookup (files (snd (installLang ex_cfg ex_env ''fra'' ex_world)))
        (dest_path ex_cfg ex_env ''fra'') = Some (File (body resp))"
    by blast
  from t[of "[''eng'', ''fra'']"] obtain installed where
    j: "fst (getInstalledLangs ex_cfg ex_env ex_world) = Inr installed"
    and f: "(\<forall>l \<in> set [''eng'', ''fra'']. l \<notin> set installed \<longrightarrow> ?p \<noteq> dest_path ex_cfg ex_env l) \<longrightarrow>
        fs_lookup (files (snd (installNecessaryLangs ex_cfg ex_env [''eng'', ''fra''] ex_world))) ?p
          = Some (File ''ENG'')"
    by blast
  from j have inst: "installed = [''eng'']" by simp
  have "\<forall>l \<in> set [''eng'', ''fra'']. l \<notin> set installed \<longrightarrow> ?p \<noteq> dest_path ex_cfg ex_env l"
    unfolding inst using d by simp
  with f have e:
    "fs_lookup (files (snd (installNecessaryLangs ex_cfg ex_env [''eng'', ''fra''] ex_world))) ?p
       = Some (File ''ENG'')" by blast
  from h a b ok c i e show ?thesis by blast
qed

theorem reinstall_replaces_counterexample:
  "fst (installLang ex_cfg ex_env ''eng'' ex_world_empty) = Inr () \<and>
   fs_lookup (files (snd (installLang ex_cfg ex_env ''eng'' ex_world_empty)))
      [''srv'', ''bot'', ''data'', ''tesseract'', ''eng.traineddata.gz'']
     = Some (File (''data of '' @ download_url ex_cfg ''eng'')) \<and>
   fst (installLang ex_cfg ex_env_updated ''eng''
          (snd (installLang ex_cfg ex_env ''eng'' ex_world_empty))) = Inr () \<and>
   fs_lookup (files (snd (installLang ex_cfg ex_env_updated ''eng''
                            (snd (installLang ex_cfg ex_env ''eng'' ex_world_empty)))))
      [''srv'', ''bot'', ''data'', ''tesseract'', ''eng.traineddata.gz'']
     = Some (File ''newer data'') \<and>
   ''data of '' @ download_url ex_cfg ''eng'' \<noteq> ''newer data''"
proof -
  have a: "fs_lookup (files (snd (installLang ex_cfg ex_env ''eng'' ex_world_empty)))
      [''srv'', ''bot'', ''data'', ''tesseract'', ''eng.traineddata.gz'']
     = Some (File (''data of '' @ download_url ex_cfg ''eng''))"
    by (simp add: ex_install_eng fs_lookup_def ex_dirs_def)
  have b: "fst (installLang ex_cfg ex_env_updated ''eng''
          (snd (installLang ex_cfg ex_env ''eng'' ex_world_empty))) = Inr ()"
    "fs_lookup (files (snd (installLang ex_cfg ex_env_updated ''eng''
                            (snd (installLang ex_cfg ex_env ''eng'' ex_world_empty)))))
      [''srv'', ''bot'', ''data'', ''tesseract'', ''eng.traineddata.gz'']
     = Some (File ''newer data'')"
    by (simp_all add: installLang_unfold[of ex_cfg ex_env_updated] ex_install_eng fs_mkdir_def
        pipeTo_file_def fs_lookup_def ex_dirs_def)
  from a b ex_install_eng(1) show ?thesis by simp
qed

end
